theory Spec2Isabelle
  imports Complex_Main "HOL-Library.Log_Nat"
begin

section \<open>Numbers and errors\<close>

text \<open>
  The metrics of \<^verbatim>\<open>monitor.py\<close> are Python floats, that is binary64 numbers. A
  float is modelled by the rational it denotes. Byte counters are Python's unbounded
  integers.

  Python's builtin \<^verbatim>\<open>round(x, 2)\<close> rounds the exact value of \<open>x\<close> to two decimals, a
  tie going to the even neighbour, and returns the float nearest to that decimal: the
  model keeps the decimal.
\<close>

definition round_half_even :: "rat \<Rightarrow> int" where
  "round_half_even y =
     (let f = \<lfloor>y\<rfloor>; d = y - of_int f
      in if d < 1 / 2 then f
         else if 1 / 2 < d then f + 1
         else if even f then f else f + 1)"

definition py_round2 :: "rat \<Rightarrow> rat" where
  "py_round2 x = of_int (round_half_even (x * 100)) / 100"

text \<open>
  Rounding to binary64, to nearest and ties to even: \<open>binade x\<close> is the exponent of the
  power of two at or below \<open>\<bar>x\<bar>\<close>, and the spacing of the floats around \<open>x\<close> is 52
  binary places below it, or \<open>2\<^sup>-\<^sup>1\<^sup>0\<^sup>7\<^sup>4\<close> among the subnormal numbers. Overflow is not
  modelled: the readings are percentages.
\<close>

definition pow2 :: "int \<Rightarrow> rat" where
  "pow2 e = (if 0 \<le> e then 2 ^ nat e else 1 / 2 ^ nat (- e))"

definition binade :: "rat \<Rightarrow> int" where
  "binade x =
     (case quotient_of \<bar>x\<bar> of
        (p, q) \<Rightarrow> let d = bitlen p - bitlen q in if pow2 d \<le> \<bar>x\<bar> then d else d - 1)"

definition binary64 :: "rat \<Rightarrow> rat" where
  "binary64 x =
     (if x = 0 then 0
      else let quantum = pow2 (max (binade x) (- 1022) - 52)
           in of_int (round_half_even (x / quantum)) * quantum)"

text \<open>
  Python's builtin \<^verbatim>\<open>sum\<close> on a list of floats. Up to CPython 3.11 it adds the items
  from left to right, each addition rounded; from CPython 3.12 on it carries the
  rounding errors along in a compensation term that it adds at the end (Neumaier's
  summation). The source does not fix the interpreter, so the model takes the
  summation as a parameter.
\<close>

datatype summation = Plain | Compensated

fun neumaier :: "rat \<Rightarrow> rat \<Rightarrow> rat list \<Rightarrow> rat" where
  "neumaier f c [] = (if c \<noteq> 0 then binary64 (f + c) else f)"
| "neumaier f c (x # xs) =
     (let t = binary64 (f + x);
          c' = (if \<bar>x\<bar> \<le> \<bar>f\<bar> then binary64 (c + binary64 (binary64 (f - t) + x))
                else binary64 (c + binary64 (binary64 (x - t) + f)))
      in neumaier t c' xs)"

definition py_sum :: "summation \<Rightarrow> rat list \<Rightarrow> rat" where
  "py_sum sm xs =
     (case sm of
        Plain \<Rightarrow> foldl (\<lambda>acc x. binary64 (acc + x)) 0 xs
      | Compensated \<Rightarrow>
          (case xs of [] \<Rightarrow> 0 | x # rest \<Rightarrow> neumaier (binary64 (0 + x)) 0 rest))"

text \<open>
  The exceptions that the modelled code can raise. A probe of the operating system that
  fails raises \<open>ProbeError\<close>, a statement refused by SQLite raises \<open>StorageError\<close>.
\<close>

datatype error = ProbeError | ZeroDivisionError | StorageError | UnboundLocalError

section \<open>The collectors of monitor.py\<close>

definition BUFFER_SIZE :: nat where
  "BUFFER_SIZE = 60"

text \<open>The local \<^verbatim>\<open>cpu_avg_num = 8\<close> of \<^verbatim>\<open>run_metrics\<close>.\<close>

definition cpu_avg_num :: int where
  "cpu_avg_num = 8"

text \<open>
  \<^verbatim>\<open>collect_cpu_metrics(cpu_percentages, cpu_avg_num)\<close>. The argument \<open>probe\<close> is the
  outcome of \<^verbatim>\<open>psutil.cpu_percent(interval=1)\<close>, \<open>None\<close> when the probe raises. The
  probe returns a float: a reading given as a decimal stands for the float nearest to
  it, and a reading that is a float stands for itself. The list is mutated in place, so
  the function returns it beside its result: it has been extended and trimmed also when
  the division raises. The sum and the quotient are those of floats.
\<close>

definition collect_cpu_metrics ::
  "summation \<Rightarrow> rat option \<Rightarrow> rat list \<Rightarrow> int \<Rightarrow> (error + rat) \<times> rat list" where
  "collect_cpu_metrics sm probe cpu_percentages n =
     (case probe of
        None \<Rightarrow> (Inl ProbeError, cpu_percentages)
      | Some reading \<Rightarrow>
          let cpu_percent = binary64 reading;
              appended = cpu_percentages @ [cpu_percent];
              window = (if n < int (length appended) then tl appended else appended)
          in if window = [] then (Inl ZeroDivisionError, window)
             else (Inr (py_round2 (binary64 (py_sum sm window / of_nat (length window)))),
                   window))"

text \<open>
  \<^verbatim>\<open>collect_gpu_metrics()\<close>: the argument is the outcome of \<^verbatim>\<open>GPUtil.getGPUs()\<close>,
  the loads of the devices found.
\<close>

definition collect_gpu_metrics :: "rat list option \<Rightarrow> error + rat" where
  "collect_gpu_metrics probe =
     (case probe of
        None \<Rightarrow> Inl ProbeError
      | Some GPUs \<Rightarrow> (case GPUs of [] \<Rightarrow> Inr 0 | load # _ \<Rightarrow> Inr (py_round2 (load * 100))))"

text \<open>\<^verbatim>\<open>collect_ram_metrics()\<close>, on the outcome of \<^verbatim>\<open>psutil.virtual_memory().percent\<close>.\<close>

definition collect_ram_metrics :: "rat option \<Rightarrow> error + rat" where
  "collect_ram_metrics probe =
     (case probe of None \<Rightarrow> Inl ProbeError | Some percent \<Rightarrow> Inr (py_round2 percent))"

text \<open>
  \<^verbatim>\<open>collect_disk_metrics(old_read, old_write, initial_cycle)\<close>, on the outcome of
  \<^verbatim>\<open>psutil.disk_io_counters()\<close>: the cumulative bytes read and written. The result is
  (read speed, write speed, new read counter, new write counter).
\<close>

definition collect_disk_metrics ::
  "(int \<times> int) option \<Rightarrow> int \<Rightarrow> int \<Rightarrow> bool \<Rightarrow> error + (rat \<times> rat \<times> int \<times> int)" where
  "collect_disk_metrics probe old_read old_write initial_cycle =
     (case probe of
        None \<Rightarrow> Inl ProbeError
      | Some (new_read, new_write) \<Rightarrow>
          if initial_cycle then Inr (0, 0, new_read, new_write)
          else
            let read_speed = py_round2 (of_int (new_read - old_read) / 1024 / 1024);
                write_speed = py_round2 (of_int (new_write - old_write) / 1024 / 1024)
            in Inr (read_speed, write_speed, new_read, new_write))"

section \<open>The metrics table\<close>

text \<open>
  A row of the buffer, as \<^verbatim>\<open>run_metrics\<close> appends it: (timestamp, cpu_percent,
  gpu_percent, ram_percent, read_speed, write_speed).
\<close>

type_synonym sample = "string \<times> rat \<times> rat \<times> rat \<times> rat \<times> rat"

text \<open>
  The SQLite connection of \<^verbatim>\<open>run_metrics\<close>, seen through the table \<^verbatim>\<open>metrics\<close>:
  \<open>committed\<close> holds the durable rows, one list for each committed transaction, in
  the order of the commits (the \<^verbatim>\<open>id\<close> of a row is its position); \<open>pending\<close> holds
  the rows inserted by the open transaction, \<open>None\<close> when no transaction is open.
\<close>

record database =
  committed :: "sample list list"
  pending :: "sample list option"

definition metrics_rows :: "database \<Rightarrow> sample list" where
  "metrics_rows d = concat (committed d)"

text \<open>
  Where the storage refuses a statement during one call of \<^verbatim>\<open>write_to_database\<close>:
  at \<^verbatim>\<open>BEGIN TRANSACTION\<close>, at the insertion of the row with index \<open>k\<close> (after \<open>k\<close>
  rows went in), or at \<^verbatim>\<open>COMMIT\<close>.
\<close>

datatype storage_fault = NoFault | FailBegin | FailInsert nat | FailCommit

text \<open>
  The three statements that \<^verbatim>\<open>write_to_database\<close> executes. SQLite refuses a
  \<^verbatim>\<open>BEGIN\<close> inside a transaction and a \<^verbatim>\<open>COMMIT\<close> outside one; Python's
  \<^verbatim>\<open>sqlite3\<close> opens a transaction before an \<^verbatim>\<open>INSERT\<close> when none is open. Rows
  become durable at \<^verbatim>\<open>COMMIT\<close> and not before.
\<close>

definition sql_begin :: "storage_fault \<Rightarrow> database \<Rightarrow> error option \<times> database" where
  "sql_begin fault d =
     (if fault = FailBegin \<or> pending d \<noteq> None then (Some StorageError, d)
      else (None, d\<lparr>pending := Some []\<rparr>))"

definition sql_executemany ::
  "storage_fault \<Rightarrow> sample list \<Rightarrow> database \<Rightarrow> error option \<times> database" where
  "sql_executemany fault data_buffer d =
     (let opened = (case pending d of None \<Rightarrow> [] | Some rows \<Rightarrow> rows)
      in case fault of
           FailInsert k \<Rightarrow>
             if k < length data_buffer
             then (Some StorageError, d\<lparr>pending := Some (opened @ take k data_buffer)\<rparr>)
             else (None, d\<lparr>pending := Some (opened @ data_buffer)\<rparr>)
         | _ \<Rightarrow> (None, d\<lparr>pending := Some (opened @ data_buffer)\<rparr>))"

definition sql_commit :: "storage_fault \<Rightarrow> database \<Rightarrow> error option \<times> database" where
  "sql_commit fault d =
     (case pending d of
        None \<Rightarrow> (Some StorageError, d)
      | Some rows \<Rightarrow>
          if fault = FailCommit then (Some StorageError, d)
          else (None, d\<lparr>committed := committed d @ [rows], pending := None\<rparr>))"

text \<open>
  \<^verbatim>\<open>write_to_database(cursor, data_buffer)\<close>: the three statements in sequence; an
  exception of one of them leaves the function at once, with the connection as that
  statement left it.
\<close>

definition write_to_database ::
  "storage_fault \<Rightarrow> sample list \<Rightarrow> database \<Rightarrow> error option \<times> database" where
  "write_to_database fault data_buffer d =
     (case sql_begin fault d of
        (Some e, d1) \<Rightarrow> (Some e, d1)
      | (None, d1) \<Rightarrow>
          (case sql_executemany fault data_buffer d1 of
             (Some e, d2) \<Rightarrow> (Some e, d2)
           | (None, d2) \<Rightarrow> sql_commit fault d2))"

section \<open>The labels of the window\<close>

text \<open>
  The Tk variables that \<^verbatim>\<open>update_gui\<close> sets. The text of \<^verbatim>\<open>remaining_time\<close> is
  \<^verbatim>\<open>Initializing\<close> at start and \<^verbatim>\<open>Time until next save: {n}s\<close> afterwards: the
  model keeps \<open>n\<close>. The other labels print a number with a unit: the model keeps the
  number, \<open>None\<close> while the variable is still empty.
\<close>

datatype remaining = Initializing | UntilNextSave int

record labels =
  remaining_time :: remaining
  cpu_label_var :: "rat option"
  gpu_label_var :: "rat option"
  ram_label_var :: "rat option"
  read_speed_var :: "rat option"
  write_speed_var :: "rat option"

definition initial_labels :: labels where
  "initial_labels =
     \<lparr>remaining_time = Initializing, cpu_label_var = None, gpu_label_var = None,
      ram_label_var = None, read_speed_var = None, write_speed_var = None\<rparr>"

definition update_gui ::
  "rat \<Rightarrow> rat \<Rightarrow> rat \<Rightarrow> rat \<Rightarrow> rat \<Rightarrow> sample list \<Rightarrow> labels \<Rightarrow> labels" where
  "update_gui cpu_percent gpu_percent ram_percent read_speed write_speed data_buffer g =
     g\<lparr>remaining_time := UntilNextSave (int BUFFER_SIZE - int (length data_buffer)),
       cpu_label_var := Some cpu_percent,
       gpu_label_var := Some gpu_percent,
       ram_label_var := Some ram_percent,
       read_speed_var := Some read_speed,
       write_speed_var := Some write_speed\<rparr>"

section \<open>The sampling loop\<close>

text \<open>What the outside world gives to one iteration of the loop of \<^verbatim>\<open>run_metrics\<close>.\<close>

record probes =
  timestamp :: string
  cpu_probe :: "rat option"
  gpu_probe :: "rat list option"
  ram_probe :: "rat option"
  disk_probe :: "(int \<times> int) option"
  storage :: storage_fault

text \<open>The locals of \<^verbatim>\<open>run_metrics\<close>, the connection and the labels.\<close>

record state =
  old_read :: int
  old_write :: int
  cpu_percentages :: "rat list"
  initial_cycle :: bool
  data_buffer :: "sample list"
  db :: database
  gui :: labels

text \<open>
  The end of an iteration that is not the first: the row is appended, the labels are
  set, and a buffer of \<open>BUFFER_SIZE\<close> rows or more is written and cleared. An exception
  of the write leaves the loop before the \<^verbatim>\<open>clear\<close>.
\<close>

definition record_sample ::
  "storage_fault \<Rightarrow> string \<Rightarrow> rat \<Rightarrow> rat \<Rightarrow> rat \<Rightarrow> rat \<Rightarrow> rat \<Rightarrow> state \<Rightarrow> error option \<times> state" where
  "record_sample fault ts cpu_percent gpu_percent ram_percent read_speed write_speed s =
     (let buffer = data_buffer s @
            [(ts, cpu_percent, gpu_percent, ram_percent, read_speed, write_speed)];
          s1 = s\<lparr>data_buffer := buffer,
                 gui := update_gui cpu_percent gpu_percent ram_percent read_speed
                          write_speed buffer (gui s)\<rparr>
      in if BUFFER_SIZE \<le> length buffer then
           (case write_to_database fault buffer (db s1) of
              (Some e, d) \<Rightarrow> (Some e, s1\<lparr>db := d\<rparr>)
            | (None, d) \<Rightarrow> (None, s1\<lparr>db := d, data_buffer := []\<rparr>))
         else (None, s1))"

text \<open>
  One iteration of \<^verbatim>\<open>while True\<close>. The result is the exception that left the loop,
  if any, and the state at that point. The first argument is the summation of the
  interpreter that runs the loop, which \<^verbatim>\<open>collect_cpu_metrics\<close> needs.
\<close>

definition tick :: "summation \<Rightarrow> probes \<Rightarrow> state \<Rightarrow> error option \<times> state" where
  "tick sm p s =
     (case collect_cpu_metrics sm (cpu_probe p) (cpu_percentages s) cpu_avg_num of
        (Inl e, w) \<Rightarrow> (Some e, s\<lparr>cpu_percentages := w\<rparr>)
      | (Inr cpu_percent, w) \<Rightarrow>
          (case collect_gpu_metrics (gpu_probe p) of
             Inl e \<Rightarrow> (Some e, s\<lparr>cpu_percentages := w\<rparr>)
           | Inr gpu_percent \<Rightarrow>
               (case collect_ram_metrics (ram_probe p) of
                  Inl e \<Rightarrow> (Some e, s\<lparr>cpu_percentages := w\<rparr>)
                | Inr ram_percent \<Rightarrow>
                    (case collect_disk_metrics (disk_probe p) (old_read s) (old_write s)
                            (initial_cycle s) of
                       Inl e \<Rightarrow> (Some e, s\<lparr>cpu_percentages := w\<rparr>)
                     | Inr (read_speed, write_speed, new_read, new_write) \<Rightarrow>
                         let s1 = s\<lparr>cpu_percentages := w, old_read := new_read,
                                    old_write := new_write\<rparr>
                         in if initial_cycle s then (None, s1\<lparr>initial_cycle := False\<rparr>)
                            else record_sample (storage p) (timestamp p) cpu_percent
                                   gpu_percent ram_percent read_speed write_speed s1))))"

text \<open>
  The loop never ends by itself: it is run on a finite list of iterations, and stops
  before the end of the list when an exception leaves it.
\<close>

fun run_ticks :: "summation \<Rightarrow> probes list \<Rightarrow> state \<Rightarrow> error option \<times> state" where
  "run_ticks sm [] s = (None, s)"
| "run_ticks sm (p # ps) s =
     (case tick sm p s of
        (Some e, s') \<Rightarrow> (Some e, s')
      | (None, s') \<Rightarrow> run_ticks sm ps s')"

text \<open>
  \<^verbatim>\<open>run_metrics()\<close>, from the transactions that the table holds when the connection
  is opened.
\<close>

definition initial_state :: "sample list list \<Rightarrow> state" where
  "initial_state table =
     \<lparr>old_read = 0, old_write = 0, cpu_percentages = [], initial_cycle = True,
      data_buffer = [], db = \<lparr>committed = table, pending = None\<rparr>, gui = initial_labels\<rparr>"

definition run_metrics :: "summation \<Rightarrow> sample list list \<Rightarrow> probes list \<Rightarrow> error option \<times> state" where
  "run_metrics sm table ps = run_ticks sm ps (initial_state table)"

section \<open>The time filter of analyzer.py\<close>

text \<open>
  A data frame is the list of its rows, each with its index, a time in microseconds;
  \<open>now\<close> is the value of \<^verbatim>\<open>datetime.now()\<close>.
\<close>

definition timedelta_hours :: "int \<Rightarrow> int" where
  "timedelta_hours h = h * 3600 * 1000000"

definition timedelta_days :: "int \<Rightarrow> int" where
  "timedelta_days d = d * 24 * 3600 * 1000000"

definition timedelta_weeks :: "int \<Rightarrow> int" where
  "timedelta_weeks w = w * 7 * 24 * 3600 * 1000000"

text \<open>
  The last statement of \<^verbatim>\<open>filter_time\<close>, \<^verbatim>\<open>return df[df.index >= past_time]\<close>, where
  \<^verbatim>\<open>past_time\<close> is \<open>None\<close> when no branch has assigned it.
\<close>

definition select_since :: "int option \<Rightarrow> (int \<times> 'a) list \<Rightarrow> error + (int \<times> 'a) list" where
  "select_since past_time df =
     (case past_time of
        None \<Rightarrow> Inl UnboundLocalError
      | Some t \<Rightarrow> Inr (filter (\<lambda>row. t \<le> fst row) df))"

definition filter_time :: "int \<Rightarrow> (int \<times> 'a) list \<Rightarrow> string \<Rightarrow> error + (int \<times> 'a) list" where
  "filter_time now df time_period =
     (if time_period = ''Last Hour'' then select_since (Some (now - timedelta_hours 1)) df
      else if time_period = ''Last Day'' then select_since (Some (now - timedelta_days 1)) df
      else if time_period = ''Last Week'' then select_since (Some (now - timedelta_weeks 1)) df
      else if time_period = ''All'' then Inr df
      else select_since None df)"

section \<open>Notions used by the properties\<close>




text \<open>An iteration all of whose probes answer, and one whose storage accepts every statement.\<close>

definition probes_answer :: "probes \<Rightarrow> bool" where
  "probes_answer p \<longleftrightarrow>
     cpu_probe p \<noteq> None \<and> gpu_probe p \<noteq> None \<and> ram_probe p \<noteq> None \<and> disk_probe p \<noteq> None"

definition healthy :: "probes \<Rightarrow> bool" where
  "healthy p \<longleftrightarrow> probes_answer p \<and> storage p = NoFault"

text \<open>
  The rows that the collectors yield for the iterations \<open>ps\<close>, in their order, when the
  window of the smoother is \<open>window\<close> and the counters kept from the iteration before
  are \<open>r0\<close> and \<open>w0\<close>: the samples collected by iterations that are not the first.
  An iteration in which a collector raises ends the list.
\<close>

fun samples_of :: "summation \<Rightarrow> probes list \<Rightarrow> rat list \<Rightarrow> int \<Rightarrow> int \<Rightarrow> sample list" where
  "samples_of sm [] window r0 w0 = []"
| "samples_of sm (p # ps) window r0 w0 =
     (case collect_cpu_metrics sm (cpu_probe p) window cpu_avg_num of
        (Inl e, window') \<Rightarrow> []
      | (Inr cpu_percent, window') \<Rightarrow>
          (case collect_gpu_metrics (gpu_probe p) of
             Inl e \<Rightarrow> []
           | Inr gpu_percent \<Rightarrow>
               (case collect_ram_metrics (ram_probe p) of
                  Inl e \<Rightarrow> []
                | Inr ram_percent \<Rightarrow>
                    (case collect_disk_metrics (disk_probe p) r0 w0 False of
                       Inl e \<Rightarrow> []
                     | Inr (read_speed, write_speed, r1, w1) \<Rightarrow>
                         (timestamp p, cpu_percent, gpu_percent, ram_percent, read_speed,
                          write_speed) # samples_of sm ps window' r1 w1))))"

text \<open>A concrete iteration, for the examples.\<close>

definition example_probes :: probes where
  "example_probes =
     \<lparr>timestamp = ''2023-09-01 12:00:00'', cpu_probe = Some 50, gpu_probe = Some [],
      ram_probe = Some 40, disk_probe = Some (104857600, 272629760), storage = NoFault\<rparr>"

text \<open>Iterations that differ in every field, for the examples.\<close>

definition example_tick :: "nat \<Rightarrow> probes" where
  "example_tick i =
     \<lparr>timestamp = ''2023-09-01 12:00:'' @
        [''0123456789'' ! (i div 10), ''0123456789'' ! (i mod 10)],
      cpu_probe = Some (of_nat i), gpu_probe = Some [of_nat i / 100],
      ram_probe = Some (40 + of_nat i / 4),
      disk_probe = Some (int i * 1048576, int i * int i * 1048576), storage = NoFault\<rparr>"

section \<open>The main program\<close>

text \<open>
  The block under \<^verbatim>\<open>if __name__ == "__main__"\<close> starts \<^verbatim>\<open>run_metrics\<close> as the target
  of a daemon thread and enters \<^verbatim>\<open>root.mainloop()\<close>, which returns when the window is
  closed. An exception that leaves the target of a thread ends that thread and no
  other. The interpreter exits when the main thread has returned and every thread that
  is not a daemon has ended. What the block does before, creating the table, the window
  and the labels, is not modelled.
\<close>

datatype thread_end = Returned | Raised error

record thread =
  daemon :: bool
  ended :: "thread_end option"

definition process_exits :: "bool \<Rightarrow> thread list \<Rightarrow> bool" where
  "process_exits main_returned threads \<longleftrightarrow>
     main_returned \<and> list_all (\<lambda>t. daemon t \<or> ended t \<noteq> None) threads"

record process =
  sampler :: thread
  sampler_state :: state
  exited :: bool

definition main_program :: "summation \<Rightarrow> sample list list \<Rightarrow> probes list \<Rightarrow> bool \<Rightarrow> process" where
  "main_program sm table ps window_closed =
     (case run_metrics sm table ps of
        (r, s) \<Rightarrow>
          let worker = \<lparr>daemon = True, ended = map_option Raised r\<rparr>
          in \<lparr>sampler = worker, sampler_state = s,
              exited = process_exits window_closed [worker]\<rparr>)"

section \<open>The window of the smoother\<close>









section \<open>Rounding of negative numbers\<close>

lemma round_half_even_nonpos: "y < 0 \<Longrightarrow> round_half_even y \<le> 0"
proof -
  assume "y < 0"
  then have "\<lfloor>y\<rfloor> < 0" by linarith
  then show ?thesis by (simp add: round_half_even_def Let_def)
qed

lemma round_half_even_neg: "y < - (1 / 2) \<Longrightarrow> round_half_even y < 0"
proof -
  assume y: "y < - (1 / 2)"
  then have f: "\<lfloor>y\<rfloor> \<le> - 1" by linarith
  show ?thesis
  proof (cases "\<lfloor>y\<rfloor> = - 1")
    case True
    with y have "y - of_int \<lfloor>y\<rfloor> < 1 / 2" by simp
    with True show ?thesis by (simp add: round_half_even_def Let_def)
  next
    case False
    with f have "\<lfloor>y\<rfloor> + 1 < 0" by linarith
    then show ?thesis by (simp add: round_half_even_def Let_def)
  qed
qed

lemma py_round2_nonpos: "x < 0 \<Longrightarrow> py_round2 x \<le> 0"
  using round_half_even_nonpos[of "x * 100"]
  by (simp add: py_round2_def divide_le_0_iff mult_less_0_iff)

lemma py_round2_neg: "x * 200 < - 1 \<Longrightarrow> py_round2 x < 0"
  using round_half_even_neg[of "x * 100"]
  by (simp add: py_round2_def divide_less_0_iff)

lemma speed_nonpos: "(new::int) < old \<Longrightarrow> py_round2 (of_int (new - old) / 1024 / 1024) \<le> 0"
  by (rule py_round2_nonpos) (simp add: divide_less_0_iff)

lemma speed_neg:
  assumes "(new::int) + 5243 \<le> old"
  shows "py_round2 (of_int (new - old) / 1024 / 1024) < 0"
proof (rule py_round2_neg)
  from assms have "(new - old) * 200 < - 1048576" by simp
  then have "(of_int ((new - old) * 200) :: rat) < of_int (- 1048576)"
    by (simp only: of_int_less_iff)
  then show "(of_int (new - old) / 1024 / 1024 :: rat) * 200 < - 1" by simp
qed

section \<open>One iteration of the loop\<close>

lemma collect_cpu_answers:
  "\<exists>c w. collect_cpu_metrics sm (Some r) win cpu_avg_num = (Inr c, w)"
  by (cases win) (auto simp: collect_cpu_metrics_def cpu_avg_num_def Let_def)

lemma collect_cpu_silent:
  "collect_cpu_metrics sm None win n = (Inl ProbeError, win)"
  by (simp add: collect_cpu_metrics_def)

lemma collect_gpu_answers: "\<exists>g. collect_gpu_metrics (Some l) = Inr g"
  by (cases l) (auto simp: collect_gpu_metrics_def)

lemma samples_of_step:
  assumes "collect_cpu_metrics sm (cpu_probe p) window cpu_avg_num = (Inr c, win)"
    and "collect_gpu_metrics (gpu_probe p) = Inr g"
    and "collect_ram_metrics (ram_probe p) = Inr m"
    and "disk_probe p = Some (r1, w1)"
  shows "samples_of sm (p # qs) window r0 w0 =
           (timestamp p, c, g, m, py_round2 (of_int (r1 - r0) / 1024 / 1024),
            py_round2 (of_int (w1 - w0) / 1024 / 1024)) # samples_of sm qs win r1 w1"
  using assms by (simp add: collect_disk_metrics_def)

lemma tick_answer:
  assumes "probes_answer p"
  obtains c g m r1 w1 win where
    "collect_cpu_metrics sm (cpu_probe p) (cpu_percentages s) cpu_avg_num = (Inr c, win)"
    "collect_gpu_metrics (gpu_probe p) = Inr g"
    "collect_ram_metrics (ram_probe p) = Inr m"
    "disk_probe p = Some (r1, w1)"
    "initial_cycle s \<Longrightarrow>
       tick sm p s = (None, s\<lparr>cpu_percentages := win, old_read := r1, old_write := w1,
                            initial_cycle := False\<rparr>)"
    "\<not> initial_cycle s \<Longrightarrow>
       tick sm p s = record_sample (storage p) (timestamp p) c g m
         (py_round2 (of_int (r1 - old_read s) / 1024 / 1024))
         (py_round2 (of_int (w1 - old_write s) / 1024 / 1024))
         (s\<lparr>cpu_percentages := win, old_read := r1, old_write := w1\<rparr>)"
proof -
  from assms obtain r l m0 r1 w1 where
    p: "cpu_probe p = Some r" "gpu_probe p = Some l" "ram_probe p = Some m0"
       "disk_probe p = Some (r1, w1)"
    by (auto simp: probes_answer_def)
  obtain c win where
    c: "collect_cpu_metrics sm (Some r) (cpu_percentages s) cpu_avg_num = (Inr c, win)"
    using collect_cpu_answers by blast
  obtain g where g: "collect_gpu_metrics (Some l) = Inr g"
    using collect_gpu_answers by blast
  have m: "collect_ram_metrics (Some m0) = Inr (py_round2 m0)"
    by (simp add: collect_ram_metrics_def)
  show thesis
  proof (rule that[where c = c and win = win and g = g and m = "py_round2 m0"
        and ?r1.0 = r1 and ?w1.0 = w1])
    show "collect_cpu_metrics sm (cpu_probe p) (cpu_percentages s) cpu_avg_num = (Inr c, win)"
      using c p by simp
    show "collect_gpu_metrics (gpu_probe p) = Inr g" using g p by simp
    show "collect_ram_metrics (ram_probe p) = Inr (py_round2 m0)" using m p by simp
    show "disk_probe p = Some (r1, w1)" by (rule p)
  next
    assume "initial_cycle s"
    then show "tick sm p s = (None, s\<lparr>cpu_percentages := win, old_read := r1, old_write := w1,
                            initial_cycle := False\<rparr>)"
      by (simp add: tick_def p c g m collect_disk_metrics_def)
  next
    assume "\<not> initial_cycle s"
    then show "tick sm p s = record_sample (storage p) (timestamp p) c g (py_round2 m0)
         (py_round2 (of_int (r1 - old_read s) / 1024 / 1024))
         (py_round2 (of_int (w1 - old_write s) / 1024 / 1024))
         (s\<lparr>cpu_percentages := win, old_read := r1, old_write := w1\<rparr>)"
      by (simp add: tick_def p c g m collect_disk_metrics_def Let_def)
  qed
qed

lemma tick_probe_fails:
  assumes "\<not> probes_answer p"
  shows "\<exists>w. tick sm p s = (Some ProbeError, s\<lparr>cpu_percentages := w\<rparr>)"
proof (cases "cpu_probe p")
  case None
  then show ?thesis
    by (intro exI[of _ "cpu_percentages s"]) (simp add: tick_def collect_cpu_silent)
next
  case (Some r)
  obtain c win where c: "collect_cpu_metrics sm (Some r) (cpu_percentages s) cpu_avg_num = (Inr c, win)"
    using collect_cpu_answers by blast
  show ?thesis
  proof (cases "gpu_probe p")
    case None
    then show ?thesis
      by (intro exI[of _ win]) (simp add: tick_def Some c collect_gpu_metrics_def)
  next
    case g: (Some l)
    obtain gp where gp: "collect_gpu_metrics (Some l) = Inr gp"
      using collect_gpu_answers by blast
    show ?thesis
    proof (cases "ram_probe p")
      case None
      then show ?thesis
        by (intro exI[of _ win]) (simp add: tick_def Some c g gp collect_ram_metrics_def)
    next
      case m: (Some m0)
      with assms Some g have "disk_probe p = None"
        by (cases "disk_probe p") (auto simp: probes_answer_def)
      then show ?thesis
        by (intro exI[of _ win])
          (simp add: tick_def Some c g gp m collect_ram_metrics_def collect_disk_metrics_def)
    qed
  qed
qed

lemma record_sample_below:
  assumes "Suc (length (data_buffer s)) < BUFFER_SIZE"
  shows "record_sample fault ts c g m r w s =
    (None, s\<lparr>data_buffer := data_buffer s @ [(ts, c, g, m, r, w)],
             gui := update_gui c g m r w (data_buffer s @ [(ts, c, g, m, r, w)]) (gui s)\<rparr>)"
  using assms by (simp add: record_sample_def Let_def)

lemma record_sample_full:
  assumes "BUFFER_SIZE \<le> Suc (length (data_buffer s))"
    and "write_to_database fault (data_buffer s @ [(ts, c, g, m, r, w)]) (db s) = (e, d)"
  shows "record_sample fault ts c g m r w s =
    (e, s\<lparr>data_buffer := (if e = None then [] else data_buffer s @ [(ts, c, g, m, r, w)]),
          gui := update_gui c g m r w (data_buffer s @ [(ts, c, g, m, r, w)]) (gui s),
          db := d\<rparr>)"
  using assms by (cases e) (simp_all add: record_sample_def Let_def)

lemma write_succeeds:
  "pending d = None \<Longrightarrow>
   write_to_database NoFault batch d = (None, d\<lparr>committed := committed d @ [batch]\<rparr>)"
  by (simp add: write_to_database_def sql_begin_def sql_executemany_def sql_commit_def Let_def)

lemma write_outcome:
  "write_to_database fault batch d = (e, d') \<Longrightarrow>
     (e = None \<and> committed d' = committed d @ [batch] \<and> pending d' = None) \<or>
     (e = Some StorageError \<and> committed d' = committed d)"
  by (cases fault; cases "pending d")
     (auto simp: write_to_database_def sql_begin_def sql_executemany_def sql_commit_def
        Let_def split: if_splits)

lemma run_ticks_append:
  "run_ticks sm (ps @ qs) s =
     (case run_ticks sm ps s of (Some e, s') \<Rightarrow> (Some e, s') | (None, s') \<Rightarrow> run_ticks sm qs s')"
  by (induction ps arbitrary: s) (auto split: prod.splits option.splits)

section \<open>The buffer along the loop\<close>

lemma tick_buffer_step:
  assumes t: "tick sm p s = (r, s')" and below: "length (data_buffer s) < BUFFER_SIZE"
  shows "(db s' = db s \<and> r \<noteq> Some StorageError \<and>
           (data_buffer s' = data_buffer s \<or>
            (\<exists>row. data_buffer s' = data_buffer s @ [row] \<and>
                   length (data_buffer s') < BUFFER_SIZE))) \<or>
         (\<exists>row. length (data_buffer s @ [row]) = BUFFER_SIZE \<and>
                write_to_database (storage p) (data_buffer s @ [row]) (db s) = (r, db s') \<and>
                data_buffer s' = (if r = None then [] else data_buffer s @ [row]))"
proof (cases "probes_answer p")
  case False
  from tick_probe_fails[OF False, where s = s and sm = sm] t show ?thesis by auto
next
  case True
  then obtain c g m r1 w1 win where
    first: "initial_cycle s \<Longrightarrow>
       tick sm p s = (None, s\<lparr>cpu_percentages := win, old_read := r1, old_write := w1,
                            initial_cycle := False\<rparr>)"
    and later: "\<not> initial_cycle s \<Longrightarrow>
       tick sm p s = record_sample (storage p) (timestamp p) c g m
         (py_round2 (of_int (r1 - old_read s) / 1024 / 1024))
         (py_round2 (of_int (w1 - old_write s) / 1024 / 1024))
         (s\<lparr>cpu_percentages := win, old_read := r1, old_write := w1\<rparr>)"
    by (rule tick_answer[where p = p and s = s and sm = sm]) blast
  show ?thesis
  proof (cases "initial_cycle s")
    case True
    from first[OF True] t show ?thesis by auto
  next
    case False
    let ?s1 = "s\<lparr>cpu_percentages := win, old_read := r1, old_write := w1\<rparr>"
    let ?rs = "py_round2 (of_int (r1 - old_read s) / 1024 / 1024)"
    let ?ws = "py_round2 (of_int (w1 - old_write s) / 1024 / 1024)"
    let ?row = "(timestamp p, c, g, m, ?rs, ?ws)"
    from later[OF False] t
    have rec: "record_sample (storage p) (timestamp p) c g m ?rs ?ws ?s1 = (r, s')" by simp
    show ?thesis
    proof (cases "Suc (length (data_buffer s)) < BUFFER_SIZE")
      case True
      then have "Suc (length (data_buffer ?s1)) < BUFFER_SIZE" by simp
      from record_sample_below[OF this, where fault = "storage p" and ts = "timestamp p" and c = c and g = g and m = m and r = ?rs and w = ?ws] rec True
      show ?thesis by auto
    next
      case full: False
      with below have len: "Suc (length (data_buffer s)) = BUFFER_SIZE" by simp
      obtain e d where w: "write_to_database (storage p) (data_buffer s @ [?row]) (db s) = (e, d)"
        by (cases "write_to_database (storage p) (data_buffer s @ [?row]) (db s)")
      have "BUFFER_SIZE \<le> Suc (length (data_buffer ?s1))" using len by simp
      moreover have "write_to_database (storage p) (data_buffer ?s1 @ [?row]) (db ?s1) = (e, d)"
        using w by simp
      ultimately have "record_sample (storage p) (timestamp p) c g m ?rs ?ws ?s1 =
          (e, ?s1\<lparr>data_buffer := (if e = None then [] else data_buffer ?s1 @ [?row]),
                  gui := update_gui c g m ?rs ?ws (data_buffer ?s1 @ [?row]) (gui ?s1),
                  db := d\<rparr>)"
        by (rule record_sample_full)
      with rec have "r = e" and
        "s' = ?s1\<lparr>data_buffer := (if e = None then [] else data_buffer ?s1 @ [?row]),
                  gui := update_gui c g m ?rs ?ws (data_buffer ?s1 @ [?row]) (gui ?s1),
                  db := d\<rparr>"
        by simp_all
      with w len have "length (data_buffer s @ [?row]) = BUFFER_SIZE \<and>
                write_to_database (storage p) (data_buffer s @ [?row]) (db s) = (r, db s') \<and>
                data_buffer s' = (if r = None then [] else data_buffer s @ [?row])"
        by simp
      then show ?thesis by blast
    qed
  qed
qed

lemma tick_buffer_bound:
  assumes "tick sm p s = (r, s')" and "length (data_buffer s) < BUFFER_SIZE"
  shows "length (data_buffer s') \<le> BUFFER_SIZE \<and>
         (r = None \<longrightarrow> length (data_buffer s') < BUFFER_SIZE)"
  using tick_buffer_step[OF assms] assms(2)
  by (auto simp: BUFFER_SIZE_def split: if_splits)

lemma run_ticks_buffer_bound:
  "length (data_buffer s) < BUFFER_SIZE \<Longrightarrow> run_ticks sm ps s = (r, s') \<Longrightarrow>
   length (data_buffer s') \<le> BUFFER_SIZE \<and> (r = None \<longrightarrow> length (data_buffer s') < BUFFER_SIZE)"
proof (induction ps arbitrary: s)
  case Nil
  then show ?case by auto
next
  case (Cons p ps)
  obtain e s1 where t: "tick sm p s = (e, s1)" by (cases "tick sm p s")
  from tick_buffer_bound[OF t Cons.prems(1)]
  have b: "length (data_buffer s1) \<le> BUFFER_SIZE"
    and n: "e = None \<Longrightarrow> length (data_buffer s1) < BUFFER_SIZE" by simp_all
  show ?case
  proof (cases e)
    case None
    with Cons.prems(2) t have "run_ticks sm ps s1 = (r, s')" by simp
    from Cons.IH[OF n[OF None] this] show ?thesis .
  next
    case (Some x)
    with Cons.prems(2) t have "r = Some x" "s' = s1" by simp_all
    with b show ?thesis by simp
  qed
qed

lemma initial_state_buffer: "length (data_buffer (initial_state table)) < BUFFER_SIZE"
  by (simp add: initial_state_def BUFFER_SIZE_def)

lemma tick_baseline:
  assumes "probes_answer p" and "initial_cycle s"
  shows "\<exists>s' r1 w1. tick sm p s = (None, s') \<and> disk_probe p = Some (r1, w1) \<and>
           old_read s' = r1 \<and> old_write s' = w1 \<and> \<not> initial_cycle s' \<and>
           data_buffer s' = data_buffer s \<and> gui s' = gui s \<and> db s' = db s"
proof -
  from assms(1) obtain c g m r1 w1 win where
    "disk_probe p = Some (r1, w1)"
    "initial_cycle s \<Longrightarrow>
       tick sm p s = (None, s\<lparr>cpu_percentages := win, old_read := r1, old_write := w1,
                            initial_cycle := False\<rparr>)"
    by (rule tick_answer[where p = p and s = s and sm = sm]) blast
  with assms(2) show ?thesis by simp
qed

lemma tick_appends:
  assumes "probes_answer p" and "\<not> initial_cycle s"
    and "Suc (length (data_buffer s)) < BUFFER_SIZE"
  shows "\<exists>s' c g m r1 w1. tick sm p s = (None, s') \<and> \<not> initial_cycle s' \<and> db s' = db s \<and>
           disk_probe p = Some (r1, w1) \<and> old_read s' = r1 \<and> old_write s' = w1 \<and>
           data_buffer s' = data_buffer s @
             [(timestamp p, c, g, m, py_round2 (of_int (r1 - old_read s) / 1024 / 1024),
               py_round2 (of_int (w1 - old_write s) / 1024 / 1024))] \<and>
           gui s' = update_gui c g m (py_round2 (of_int (r1 - old_read s) / 1024 / 1024))
               (py_round2 (of_int (w1 - old_write s) / 1024 / 1024)) (data_buffer s') (gui s) \<and>
           (\<forall>qs. samples_of sm (p # qs) (cpu_percentages s) (old_read s) (old_write s) =
              (timestamp p, c, g, m, py_round2 (of_int (r1 - old_read s) / 1024 / 1024),
               py_round2 (of_int (w1 - old_write s) / 1024 / 1024)) #
              samples_of sm qs (cpu_percentages s') (old_read s') (old_write s'))"
proof -
  from assms(1) obtain c g m r1 w1 win where
    cpu: "collect_cpu_metrics sm (cpu_probe p) (cpu_percentages s) cpu_avg_num = (Inr c, win)"
    and gpu: "collect_gpu_metrics (gpu_probe p) = Inr g"
    and ram: "collect_ram_metrics (ram_probe p) = Inr m"
    and d: "disk_probe p = Some (r1, w1)"
    and later: "\<not> initial_cycle s \<Longrightarrow>
       tick sm p s = record_sample (storage p) (timestamp p) c g m
         (py_round2 (of_int (r1 - old_read s) / 1024 / 1024))
         (py_round2 (of_int (w1 - old_write s) / 1024 / 1024))
         (s\<lparr>cpu_percentages := win, old_read := r1, old_write := w1\<rparr>)"
    by (rule tick_answer[where p = p and s = s and sm = sm]) blast
  let ?s1 = "s\<lparr>cpu_percentages := win, old_read := r1, old_write := w1\<rparr>"
  let ?rs = "py_round2 (of_int (r1 - old_read s) / 1024 / 1024)"
  let ?ws = "py_round2 (of_int (w1 - old_write s) / 1024 / 1024)"
  let ?row = "(timestamp p, c, g, m, ?rs, ?ws)"
  let ?s' = "?s1\<lparr>data_buffer := data_buffer ?s1 @ [?row],
                 gui := update_gui c g m ?rs ?ws (data_buffer ?s1 @ [?row]) (gui ?s1)\<rparr>"
  from assms(3) have "Suc (length (data_buffer ?s1)) < BUFFER_SIZE" by simp
  from record_sample_below[OF this] later[OF assms(2)]
  have t: "tick sm p s = (None, ?s')" by simp
  have rows: "\<forall>qs. samples_of sm (p # qs) (cpu_percentages s) (old_read s) (old_write s) =
      ?row # samples_of sm qs (cpu_percentages ?s') (old_read ?s') (old_write ?s')"
    using samples_of_step[OF cpu gpu ram d] by simp
  show ?thesis
    using t d assms(2) rows
    by (intro exI[of _ ?s'] exI[of _ c] exI[of _ g] exI[of _ m] exI[of _ r1] exI[of _ w1]) simp
qed

lemma tick_flushes:
  assumes "probes_answer p" and "\<not> initial_cycle s"
    and "Suc (length (data_buffer s)) = BUFFER_SIZE"
  shows "\<exists>s' e d row. tick sm p s = (e, s') \<and> \<not> initial_cycle s' \<and> fst row = timestamp p \<and>
           samples_of sm [p] (cpu_percentages s) (old_read s) (old_write s) = [row] \<and>
           write_to_database (storage p) (data_buffer s @ [row]) (db s) = (e, d) \<and> db s' = d \<and>
           data_buffer s' = (if e = None then [] else data_buffer s @ [row]) \<and>
           remaining_time (gui s') = UntilNextSave 0"
proof -
  from assms(1) obtain c g m r1 w1 win where
    cpu: "collect_cpu_metrics sm (cpu_probe p) (cpu_percentages s) cpu_avg_num = (Inr c, win)"
    and gpu: "collect_gpu_metrics (gpu_probe p) = Inr g"
    and ram: "collect_ram_metrics (ram_probe p) = Inr m"
    and dp: "disk_probe p = Some (r1, w1)"
    and later: "\<not> initial_cycle s \<Longrightarrow>
       tick sm p s = record_sample (storage p) (timestamp p) c g m
         (py_round2 (of_int (r1 - old_read s) / 1024 / 1024))
         (py_round2 (of_int (w1 - old_write s) / 1024 / 1024))
         (s\<lparr>cpu_percentages := win, old_read := r1, old_write := w1\<rparr>)"
    by (rule tick_answer[where p = p and s = s and sm = sm]) blast
  let ?s1 = "s\<lparr>cpu_percentages := win, old_read := r1, old_write := w1\<rparr>"
  let ?rs = "py_round2 (of_int (r1 - old_read s) / 1024 / 1024)"
  let ?ws = "py_round2 (of_int (w1 - old_write s) / 1024 / 1024)"
  let ?row = "(timestamp p, c, g, m, ?rs, ?ws)"
  obtain e d where w: "write_to_database (storage p) (data_buffer s @ [?row]) (db s) = (e, d)"
    by (cases "write_to_database (storage p) (data_buffer s @ [?row]) (db s)")
  have "BUFFER_SIZE \<le> Suc (length (data_buffer ?s1))" using assms(3) by simp
  moreover have "write_to_database (storage p) (data_buffer ?s1 @ [?row]) (db ?s1) = (e, d)"
    using w by simp
  ultimately have "record_sample (storage p) (timestamp p) c g m ?rs ?ws ?s1 =
      (e, ?s1\<lparr>data_buffer := (if e = None then [] else data_buffer ?s1 @ [?row]),
              gui := update_gui c g m ?rs ?ws (data_buffer ?s1 @ [?row]) (gui ?s1),
              db := d\<rparr>)"
    by (rule record_sample_full)
  moreover have "samples_of sm [p] (cpu_percentages s) (old_read s) (old_write s) = [?row]"
    using samples_of_step[OF cpu gpu ram dp, where qs = "[]"] by simp
  ultimately show ?thesis
    using later[OF assms(2)] w assms(2,3)
    by (intro exI[of _ "?s1\<lparr>data_buffer := (if e = None then [] else data_buffer ?s1 @ [?row]),
              gui := update_gui c g m ?rs ?ws (data_buffer ?s1 @ [?row]) (gui ?s1),
              db := d\<rparr>"] exI[of _ e] exI[of _ d] exI[of _ ?row])
       (simp add: update_gui_def)
qed

lemma run_fill:
  assumes "\<forall>p\<in>set ps. probes_answer p" and "\<not> initial_cycle s"
    and "length (data_buffer s) + length ps < BUFFER_SIZE"
  shows "\<exists>s' rows. run_ticks sm ps s = (None, s') \<and> \<not> initial_cycle s' \<and> db s' = db s \<and>
           data_buffer s' = data_buffer s @ rows \<and> map fst rows = map timestamp ps \<and>
           rows = samples_of sm ps (cpu_percentages s) (old_read s) (old_write s) \<and>
           (\<forall>qs. samples_of sm (ps @ qs) (cpu_percentages s) (old_read s) (old_write s) =
              rows @ samples_of sm qs (cpu_percentages s') (old_read s') (old_write s')) \<and>
           (ps \<noteq> [] \<longrightarrow> remaining_time (gui s') =
              UntilNextSave (int BUFFER_SIZE - int (length (data_buffer s'))))"
  using assms
proof (induction ps arbitrary: s)
  case Nil
  then show ?case by simp
next
  case (Cons p ps)
  from Cons.prems have pa: "probes_answer p" and len: "Suc (length (data_buffer s)) < BUFFER_SIZE"
    by simp_all
  from tick_appends[OF pa Cons.prems(2) len, where sm = sm] obtain s1 row where
    t: "tick sm p s = (None, s1)" and ni: "\<not> initial_cycle s1" and d: "db s1 = db s"
    and b: "data_buffer s1 = data_buffer s @ [row]" and ts: "fst row = timestamp p"
    and g: "remaining_time (gui s1) = UntilNextSave (int BUFFER_SIZE - int (length (data_buffer s1)))"
    and step: "\<forall>qs. samples_of sm (p # qs) (cpu_percentages s) (old_read s) (old_write s) =
              row # samples_of sm qs (cpu_percentages s1) (old_read s1) (old_write s1)"
    by (fastforce simp: update_gui_def)
  from Cons.prems b have "\<forall>p\<in>set ps. probes_answer p"
    and "length (data_buffer s1) + length ps < BUFFER_SIZE" by simp_all
  from Cons.IH[OF this(1) ni this(2)] obtain s' rows where
    r: "run_ticks sm ps s1 = (None, s')" "\<not> initial_cycle s'" "db s' = db s1"
      "data_buffer s' = data_buffer s1 @ rows" "map fst rows = map timestamp ps"
      "rows = samples_of sm ps (cpu_percentages s1) (old_read s1) (old_write s1)"
      "\<forall>qs. samples_of sm (ps @ qs) (cpu_percentages s1) (old_read s1) (old_write s1) =
              rows @ samples_of sm qs (cpu_percentages s') (old_read s') (old_write s')"
      "ps \<noteq> [] \<longrightarrow> remaining_time (gui s') =
              UntilNextSave (int BUFFER_SIZE - int (length (data_buffer s')))"
    by blast
  have gl: "remaining_time (gui s') =
      UntilNextSave (int BUFFER_SIZE - int (length (data_buffer s')))"
  proof (cases ps)
    case Nil
    with r(1) g show ?thesis by simp
  next
    case (Cons q qs)
    with r(8) show ?thesis by simp
  qed
  have whole: "row # rows = samples_of sm (p # ps) (cpu_percentages s) (old_read s) (old_write s)"
    using step r(6) by simp
  have cont: "\<forall>qs. samples_of sm ((p # ps) @ qs) (cpu_percentages s) (old_read s) (old_write s) =
      (row # rows) @ samples_of sm qs (cpu_percentages s') (old_read s') (old_write s')"
    using step r(7) by simp
  have run: "run_ticks sm (p # ps) s = (None, s')" using t r(1) by simp
  have buf: "data_buffer s' = data_buffer s @ (row # rows)" using r(4) b by simp
  have stamps: "map fst (row # rows) = map timestamp (p # ps)" using ts r(5) by simp
  have same: "db s' = db s" using r(3) d by simp
  from run r(2) same buf stamps whole cont gl show ?case by blast
qed

lemma run_fill_prefix:
  assumes pa: "\<forall>p\<in>set ps. probes_answer p" and ni: "\<not> initial_cycle s"
    and len: "length (data_buffer s) + length ps < BUFFER_SIZE"
    and run: "run_ticks sm ps s = (None, s')" and kl: "k \<le> length ps"
  shows "\<exists>sk. run_ticks sm (take k ps) s = (None, sk) \<and> db sk = db s \<and>
           data_buffer sk = take (length (data_buffer s) + k) (data_buffer s')"
proof -
  have pa1: "\<forall>p\<in>set (take k ps). probes_answer p" using pa by (auto dest: in_set_takeD)
  have len1: "length (data_buffer s) + length (take k ps) < BUFFER_SIZE" using len by simp
  from run_fill[OF pa1 ni len1, where sm = sm] obtain sk rows where
    k: "run_ticks sm (take k ps) s = (None, sk)" "\<not> initial_cycle sk" "db sk = db s"
       "data_buffer sk = data_buffer s @ rows" "map fst rows = map timestamp (take k ps)"
    by blast
  have "length (map fst rows) = length (map timestamp (take k ps))" using k(5) by simp
  then have lr: "length rows = k" using kl by simp
  have pa2: "\<forall>p\<in>set (drop k ps). probes_answer p" using pa by (auto dest: in_set_dropD)
  have len2: "length (data_buffer sk) + length (drop k ps) < BUFFER_SIZE"
    using len k(4) lr kl by simp
  from run_fill[OF pa2 k(2) len2, where sm = sm] obtain s2 rows2 where
    r: "run_ticks sm (drop k ps) sk = (None, s2)" "data_buffer s2 = data_buffer sk @ rows2"
    by blast
  have "run_ticks sm ps s = (None, s2)"
    using run_ticks_append[where ps = "take k ps" and qs = "drop k ps" and s = s and sm = sm] k(1) r(1) by simp
  with run have "s2 = s'" by simp
  with r(2) k(4) have "data_buffer s' = (data_buffer s @ rows) @ rows2" by simp
  then have "take (length (data_buffer s) + k) (data_buffer s') = data_buffer s @ rows"
    using lr by simp
  with k show ?thesis by simp
qed

lemma run_full_batch:
  assumes len: "length ps = BUFFER_SIZE" and pa: "\<forall>p\<in>set ps. probes_answer p"
    and ni: "\<not> initial_cycle s" and empty: "data_buffer s = []"
  shows "\<exists>s' e batch.
           run_ticks sm ps s = (e, s') \<and> length batch = BUFFER_SIZE \<and>
           batch = samples_of sm ps (cpu_percentages s) (old_read s) (old_write s) \<and>
           map fst batch = map timestamp ps \<and>
           write_to_database (storage (last ps)) batch (db s) = (e, db s') \<and>
           data_buffer s' = (if e = None then [] else batch) \<and>
           remaining_time (gui s') = UntilNextSave 0 \<and>
           (\<forall>k<BUFFER_SIZE. \<exists>sk. run_ticks sm (take k ps) s = (None, sk) \<and> db sk = db s \<and>
                data_buffer sk = take k batch)"
proof -
  from len have ne: "ps \<noteq> []" by (auto simp: BUFFER_SIZE_def)
  let ?qs = "butlast ps" and ?p = "last ps"
  have ps: "ps = ?qs @ [?p]" using ne by simp
  have pa1: "\<forall>p\<in>set ?qs. probes_answer p" using pa by (auto dest: in_set_butlastD)
  have pa2: "probes_answer ?p" using pa ne by simp
  have len1: "length (data_buffer s) + length ?qs < BUFFER_SIZE" using len empty ne
    by (simp add: BUFFER_SIZE_def)
  from run_fill[OF pa1 ni len1, where sm = sm] obtain s1 rows where
    f: "run_ticks sm ?qs s = (None, s1)" "\<not> initial_cycle s1" "db s1 = db s"
       "data_buffer s1 = rows" "map fst rows = map timestamp ?qs"
       "\<forall>qs. samples_of sm (?qs @ qs) (cpu_percentages s) (old_read s) (old_write s) =
              rows @ samples_of sm qs (cpu_percentages s1) (old_read s1) (old_write s1)"
    using empty by auto
  from f(5) have lr: "length rows = length ps - 1"
    by (metis length_butlast length_map)
  then have full: "Suc (length (data_buffer s1)) = BUFFER_SIZE" using f(4) len ne
    by (simp add: BUFFER_SIZE_def)
  from tick_flushes[OF pa2 f(2) full] obtain s' e d row where
    t: "tick sm ?p s1 = (e, s')" "fst row = timestamp ?p"
       "samples_of sm [?p] (cpu_percentages s1) (old_read s1) (old_write s1) = [row]"
       "write_to_database (storage ?p) (data_buffer s1 @ [row]) (db s1) = (e, d)" "db s' = d"
       "data_buffer s' = (if e = None then [] else data_buffer s1 @ [row])"
       "remaining_time (gui s') = UntilNextSave 0"
    by blast
  let ?batch = "rows @ [row]"
  have run: "run_ticks sm ps s = (e, s')"
  proof -
    have "run_ticks sm (?qs @ [?p]) s = (e, s')"
      using f(1) t(1) by (cases e) (simp_all add: run_ticks_append)
    with ps show ?thesis by simp
  qed
  have ts: "map fst ?batch = map timestamp ps"
  proof -
    have "map fst ?batch = map timestamp (?qs @ [?p])" using f(5) t(2) by simp
    with ps show ?thesis by simp
  qed
  have pre: "\<forall>k<BUFFER_SIZE. \<exists>sk. run_ticks sm (take k ps) s = (None, sk) \<and> db sk = db s \<and>
                data_buffer sk = take k ?batch"
  proof (intro allI impI)
    fix k assume k: "k < BUFFER_SIZE"
    have kq: "k \<le> length ?qs" using k len by simp
    from run_fill_prefix[OF pa1 ni len1 f(1) kq] obtain sk where
      sk: "run_ticks sm (take k ?qs) s = (None, sk)" "db sk = db s"
          "data_buffer sk = take (length (data_buffer s) + k) (data_buffer s1)"
      by blast
    have "take k ?qs = take k ps" using k len by (simp add: take_butlast)
    moreover have "take k rows = take k ?batch" using k lr len by simp
    ultimately show "\<exists>sk. run_ticks sm (take k ps) s = (None, sk) \<and> db sk = db s \<and>
                data_buffer sk = take k ?batch"
      using sk empty f(4) by simp
  qed
  have lb: "length ?batch = BUFFER_SIZE" using lr len by (simp add: BUFFER_SIZE_def)
  have w: "write_to_database (storage ?p) ?batch (db s) = (e, db s')"
    using t(4,5) f(3,4) by simp
  have b: "data_buffer s' = (if e = None then [] else ?batch)" using t(6) f(4) by simp
  have "samples_of sm (?qs @ [?p]) (cpu_percentages s) (old_read s) (old_write s) = ?batch"
    using f(6) t(3) by simp
  with ps have c: "?batch = samples_of sm ps (cpu_percentages s) (old_read s) (old_write s)"
    by simp
  from run lb c ts w b t(7) pre show ?thesis by blast
qed

section \<open>Whole runs\<close>

lemma run_ticks_halts:
  assumes "run_ticks sm ps s0 = (None, s)" and "tick sm p s = (Some e, s')"
  shows "run_ticks sm (ps @ p # qs) s0 = (Some e, s')"
  using assms by (simp add: run_ticks_append)

lemma initial_state_fields:
  "initial_cycle (initial_state table)" "data_buffer (initial_state table) = []"
  "db (initial_state table) = \<lparr>committed = table, pending = None\<rparr>"
  "gui (initial_state table) = initial_labels"
  by (simp_all add: initial_state_def)

lemma run_baseline_full_batch:
  assumes len: "length ps = Suc BUFFER_SIZE" and pa: "\<forall>p\<in>set ps. probes_answer p"
  shows "\<exists>s' e batch.
           run_metrics sm table ps = (e, s') \<and> length batch = BUFFER_SIZE \<and>
           map fst batch = map timestamp (tl ps) \<and>
           write_to_database (storage (last ps)) batch \<lparr>committed = table, pending = None\<rparr> =
             (e, db s') \<and>
           data_buffer s' = (if e = None then [] else batch) \<and>
           remaining_time (gui s') = UntilNextSave 0 \<and>
           (\<forall>k\<le>BUFFER_SIZE. \<exists>sk. run_metrics sm table (take k ps) = (None, sk) \<and>
                db sk = \<lparr>committed = table, pending = None\<rparr> \<and>
                data_buffer sk = take (k - 1) batch)"
proof -
  from len obtain p qs where ps: "ps = p # qs" by (cases ps) auto
  with len pa have lq: "length qs = BUFFER_SIZE" and pq: "\<forall>p\<in>set qs. probes_answer p"
    and pp: "probes_answer p" by simp_all
  have qne: "qs \<noteq> []" using lq by (auto simp: BUFFER_SIZE_def)
  from tick_baseline[OF pp initial_state_fields(1)[of table], where sm = sm] obtain s1 where
    b: "tick sm p (initial_state table) = (None, s1)" "\<not> initial_cycle s1"
       "data_buffer s1 = []" "db s1 = \<lparr>committed = table, pending = None\<rparr>"
    by (auto simp: initial_state_fields)
  from run_full_batch[OF lq pq b(2,3)] obtain s' e batch where
    f: "run_ticks sm qs s1 = (e, s')" "length batch = BUFFER_SIZE"
       "map fst batch = map timestamp qs"
       "write_to_database (storage (last qs)) batch (db s1) = (e, db s')"
       "data_buffer s' = (if e = None then [] else batch)"
       "remaining_time (gui s') = UntilNextSave 0"
       "\<forall>k<BUFFER_SIZE. \<exists>sk. run_ticks sm (take k qs) s1 = (None, sk) \<and> db sk = db s1 \<and>
                data_buffer sk = take k batch"
    by blast
  have run: "run_metrics sm table ps = (e, s')" using ps b(1) f(1) by (simp add: run_metrics_def)
  have w: "write_to_database (storage (last ps)) batch \<lparr>committed = table, pending = None\<rparr> =
             (e, db s')"
    using f(4) b(4) ps qne by simp
  have pre: "\<forall>k\<le>BUFFER_SIZE. \<exists>sk. run_metrics sm table (take k ps) = (None, sk) \<and>
                db sk = \<lparr>committed = table, pending = None\<rparr> \<and>
                data_buffer sk = take (k - 1) batch"
  proof (intro allI impI)
    fix k assume k: "k \<le> BUFFER_SIZE"
    show "\<exists>sk. run_metrics sm table (take k ps) = (None, sk) \<and>
                db sk = \<lparr>committed = table, pending = None\<rparr> \<and>
                data_buffer sk = take (k - 1) batch"
    proof (cases k)
      case 0
      then show ?thesis by (simp add: run_metrics_def initial_state_fields)
    next
      case (Suc j)
      with k have "j < BUFFER_SIZE" by simp
      with f(7) obtain sk where "run_ticks sm (take j qs) s1 = (None, sk)" "db sk = db s1"
        "data_buffer sk = take j batch" by blast
      with Suc ps b(1,4) show ?thesis by (simp add: run_metrics_def)
    qed
  qed
  from run f(2) f(3) w f(5) f(6) pre ps show ?thesis by auto
qed

lemma write_commit_fault:
  "pending d = None \<Longrightarrow> write_to_database FailCommit batch d =
     (Some StorageError, d\<lparr>pending := Some batch\<rparr>)"
  by (simp add: write_to_database_def sql_begin_def sql_executemany_def sql_commit_def Let_def)

lemma example_probes_answer:
  "probes_answer example_probes" "storage example_probes = NoFault"
  "probes_answer (example_probes\<lparr>storage := FailCommit\<rparr>)"
  "\<not> probes_answer (example_probes\<lparr>cpu_probe := None\<rparr>)"
  by (simp_all add: probes_answer_def example_probes_def)

lemma run_to_last_slot:
  assumes len: "length ps = BUFFER_SIZE" and pa: "\<forall>p\<in>set ps. probes_answer p"
  shows "\<exists>s. run_metrics sm table ps = (None, s) \<and> \<not> initial_cycle s \<and>
           Suc (length (data_buffer s)) = BUFFER_SIZE \<and>
           db s = \<lparr>committed = table, pending = None\<rparr>"
proof -
  from len obtain p qs where ps: "ps = p # qs" by (cases ps) (auto simp: BUFFER_SIZE_def)
  with len pa have lq: "Suc (length qs) = BUFFER_SIZE" and pq: "\<forall>p\<in>set qs. probes_answer p"
    and pp: "probes_answer p" by simp_all
  from tick_baseline[OF pp initial_state_fields(1)[of table], where sm = sm] obtain s1 where
    b: "tick sm p (initial_state table) = (None, s1)" "\<not> initial_cycle s1"
       "data_buffer s1 = []" "db s1 = \<lparr>committed = table, pending = None\<rparr>"
    by (auto simp: initial_state_fields)
  have "length (data_buffer s1) + length qs < BUFFER_SIZE" using b(3) lq by simp
  from run_fill[OF pq b(2) this, where sm = sm] obtain s rows where
    f: "run_ticks sm qs s1 = (None, s)" "\<not> initial_cycle s" "db s = db s1"
       "data_buffer s = data_buffer s1 @ rows" "map fst rows = map timestamp qs"
    by blast
  have "length (map fst rows) = length (map timestamp qs)" using f(5) by simp
  then have "length rows = length qs" by simp
  with f b ps lq show ?thesis by (simp add: run_metrics_def)
qed

lemma example_flush_fails:
  "\<exists>s s'. run_metrics sm [] (replicate 60 example_probes) = (None, s) \<and>
     tick sm (example_probes\<lparr>storage := FailCommit\<rparr>) s = (Some StorageError, s') \<and>
     length (data_buffer s') = 60 \<and> committed (db s') = []"
proof -
  have "length (replicate 60 example_probes) = BUFFER_SIZE" by (simp add: BUFFER_SIZE_def)
  moreover have "\<forall>p\<in>set (replicate 60 example_probes). probes_answer p"
    by (simp add: example_probes_answer)
  ultimately obtain s where
    s: "run_metrics sm [] (replicate 60 example_probes) = (None, s)" "\<not> initial_cycle s"
       "Suc (length (data_buffer s)) = BUFFER_SIZE" "db s = \<lparr>committed = [], pending = None\<rparr>"
    using run_to_last_slot[where ps = "replicate 60 example_probes" and table = "[]" and sm = sm] by blast
  from tick_flushes[OF example_probes_answer(3) s(2,3)] obtain s' e d row where
    t: "tick sm (example_probes\<lparr>storage := FailCommit\<rparr>) s = (e, s')"
       "write_to_database (storage (example_probes\<lparr>storage := FailCommit\<rparr>))
          (data_buffer s @ [row]) (db s) = (e, d)" "db s' = d"
       "data_buffer s' = (if e = None then [] else data_buffer s @ [row])"
    by blast
  have "pending (db s) = None" using s(4) by simp
  from write_commit_fault[OF this, where batch = "data_buffer s @ [row]"] t(2)
  have "e = Some StorageError" "d = (db s)\<lparr>pending := Some (data_buffer s @ [row])\<rparr>"
    by simp_all
  with s t show ?thesis by (auto simp: BUFFER_SIZE_def)
qed

lemma example_run_61:
  "\<exists>s' batch. run_metrics sm [] (replicate 61 example_probes) = (None, s') \<and>
     db s' = \<lparr>committed = [batch], pending = None\<rparr> \<and> length batch = 60 \<and>
     data_buffer s' = [] \<and> remaining_time (gui s') = UntilNextSave 0"
proof -
  have l: "length (replicate 61 example_probes) = Suc BUFFER_SIZE" by (simp add: BUFFER_SIZE_def)
  have p: "\<forall>p\<in>set (replicate 61 example_probes). probes_answer p"
    by (simp add: example_probes_answer)
  have n: "storage (last (replicate 61 example_probes)) = NoFault"
    by (simp add: example_probes_answer)
  from run_baseline_full_batch[OF l p, where table = "[]" and sm = sm] obtain s' e batch where
    f: "run_metrics sm [] (replicate 61 example_probes) = (e, s')" "length batch = BUFFER_SIZE"
       "write_to_database (storage (last (replicate 61 example_probes))) batch
          \<lparr>committed = [], pending = None\<rparr> = (e, db s')"
       "data_buffer s' = (if e = None then [] else batch)"
       "remaining_time (gui s') = UntilNextSave 0"
    by blast
  from f(3) n write_succeeds[where d = "\<lparr>committed = [], pending = None\<rparr>" and batch = batch]
  have "e = None" "db s' = \<lparr>committed = [batch], pending = None\<rparr>" by simp_all
  with f show ?thesis by (auto simp: BUFFER_SIZE_def)
qed

section \<open>Properties\<close>



text \<open>
  C2, as the code has it. A call of \<^verbatim>\<open>collect_disk_metrics\<close> that is not the first
  returns \<^verbatim>\<open>round((new - old) / 1024 / 1024, 2)\<close> for each direction and clamps
  nothing: when a counter has dropped the speed is never positive, and it is negative
  as soon as the counter dropped by 5243 bytes or more.
\<close>

theorem disk_speed_unclamped:
  "collect_disk_metrics (Some (r1, w1)) r0 w0 False =
     Inr (py_round2 (of_int (r1 - r0) / 1024 / 1024),
          py_round2 (of_int (w1 - w0) / 1024 / 1024), r1, w1) \<and>
   (r1 < r0 \<longrightarrow> py_round2 (of_int (r1 - r0) / 1024 / 1024) \<le> 0) \<and>
   (w1 < w0 \<longrightarrow> py_round2 (of_int (w1 - w0) / 1024 / 1024) \<le> 0) \<and>
   (r1 + 5243 \<le> r0 \<longrightarrow> py_round2 (of_int (r1 - r0) / 1024 / 1024) < 0) \<and>
   (w1 + 5243 \<le> w0 \<longrightarrow> py_round2 (of_int (w1 - w0) / 1024 / 1024) < 0)"
  using speed_nonpos[of r1 r0] speed_nonpos[of w1 w0]
    speed_neg[of r1 r0] speed_neg[of w1 w0]
  by (simp add: collect_disk_metrics_def Let_def)

theorem disk_speed_unclamped_witness:
  "(10485760::int) < 272629760 \<and> (10485760::int) + 5243 \<le> 272629760 \<and>
   collect_disk_metrics (Some (157286400, 10485760)) 104857600 272629760 False =
     Inr (50, - 250, 157286400, 10485760) \<and>
   py_round2 (of_int (10485760 - 272629760) / 1024 / 1024) < 0"
  using disk_speed_unclamped[of 157286400 10485760 104857600 272629760]
  by (simp add: py_round2_def round_half_even_def Let_def)

text \<open>
  C2 as stated fails: the write counter drops from 260 MB to 10 MB and the write speed
  is -250, not 0.
\<close>

theorem disk_speed_negative_counterexample:
  "(10485760::int) < 272629760 \<and>
   collect_disk_metrics (Some (157286400, 10485760)) 104857600 272629760 False =
     Inr (50, - 250, 157286400, 10485760) \<and> (- 250 :: rat) < 0"
  by (simp add: collect_disk_metrics_def py_round2_def round_half_even_def Let_def)

text \<open>
  C3. On the first iteration \<^verbatim>\<open>collect_disk_metrics\<close> returns the speeds 0 and 0 beside
  the counters it has read, and \<^verbatim>\<open>run_metrics\<close> keeps these counters and nothing
  else: the buffer, the labels and the table are as before. On the second iteration each
  speed is the difference between the counters of the second and of the first
  iteration, divided by 1024 * 1024 and rounded to two decimals; it is what the row and
  the labels show.
\<close>

theorem baseline_tick_then_delta:
  assumes p1: "probes_answer p1" and d1: "disk_probe p1 = Some (r1, w1)"
    and p2: "probes_answer p2" and d2: "disk_probe p2 = Some (r2, w2)"
    and init: "initial_cycle s"
  shows "collect_disk_metrics (disk_probe p1) (old_read s) (old_write s) (initial_cycle s) =
           Inr (0, 0, r1, w1) \<and>
         (\<exists>s1. tick sm p1 s = (None, s1) \<and> old_read s1 = r1 \<and> old_write s1 = w1 \<and>
            \<not> initial_cycle s1 \<and> data_buffer s1 = data_buffer s \<and> gui s1 = gui s \<and>
            db s1 = db s) \<and>
         (\<exists>s2 c g m. run_metrics sm table [p1, p2] = (None, s2) \<and>
            data_buffer s2 =
              [(timestamp p2, c, g, m, py_round2 (of_int (r2 - r1) / (1024 * 1024)),
                py_round2 (of_int (w2 - w1) / (1024 * 1024)))] \<and>
            read_speed_var (gui s2) = Some (py_round2 (of_int (r2 - r1) / (1024 * 1024))) \<and>
            write_speed_var (gui s2) = Some (py_round2 (of_int (w2 - w1) / (1024 * 1024))) \<and>
            db s2 = \<lparr>committed = table, pending = None\<rparr>)"
proof (intro conjI)
  show "collect_disk_metrics (disk_probe p1) (old_read s) (old_write s) (initial_cycle s) =
           Inr (0, 0, r1, w1)"
    using d1 init by (simp add: collect_disk_metrics_def)
next
  from tick_baseline[OF p1 init] d1
  show "\<exists>s1. tick sm p1 s = (None, s1) \<and> old_read s1 = r1 \<and> old_write s1 = w1 \<and>
            \<not> initial_cycle s1 \<and> data_buffer s1 = data_buffer s \<and> gui s1 = gui s \<and>
            db s1 = db s"
    by auto
next
  from tick_baseline[OF p1 initial_state_fields(1)[of table], where sm = sm] d1 obtain s1 where
    b: "tick sm p1 (initial_state table) = (None, s1)" "old_read s1 = r1" "old_write s1 = w1"
       "\<not> initial_cycle s1" "data_buffer s1 = []" "db s1 = \<lparr>committed = table, pending = None\<rparr>"
    by (auto simp: initial_state_fields)
  have "Suc (length (data_buffer s1)) < BUFFER_SIZE" using b(5) by (simp add: BUFFER_SIZE_def)
  from tick_appends[OF p2 b(4) this, where sm = sm] obtain s2 c g m r' w' where
    a0: "tick sm p2 s1 = (None, s2)" "db s2 = db s1" "disk_probe p2 = Some (r', w')"
       "data_buffer s2 = data_buffer s1 @
          [(timestamp p2, c, g, m, py_round2 (of_int (r' - old_read s1) / 1024 / 1024),
            py_round2 (of_int (w' - old_write s1) / 1024 / 1024))]"
       "gui s2 = update_gui c g m (py_round2 (of_int (r' - old_read s1) / 1024 / 1024))
               (py_round2 (of_int (w' - old_write s1) / 1024 / 1024)) (data_buffer s2) (gui s1)"
    by blast
  from a0(3) d2 have same: "r' = r2" "w' = w2" by simp_all
  have a: "tick sm p2 s1 = (None, s2)" "db s2 = \<lparr>committed = table, pending = None\<rparr>"
       "data_buffer s2 =
          [(timestamp p2, c, g, m, py_round2 (of_int (r2 - r1) / 1024 / 1024),
            py_round2 (of_int (w2 - w1) / 1024 / 1024))]"
       "gui s2 = update_gui c g m (py_round2 (of_int (r2 - r1) / 1024 / 1024))
               (py_round2 (of_int (w2 - w1) / 1024 / 1024)) (data_buffer s2) (gui s1)"
    using a0 same b by simp_all
  have run: "run_metrics sm table [p1, p2] = (None, s2)" using b(1) a(1) by (simp add: run_metrics_def)
  have q: "\<And>x::rat. x / 1024 / 1024 = x / (1024 * 1024)" by simp
  from run a(2,3,4) show "\<exists>s2 c g m. run_metrics sm table [p1, p2] = (None, s2) \<and>
            data_buffer s2 =
              [(timestamp p2, c, g, m, py_round2 (of_int (r2 - r1) / (1024 * 1024)),
                py_round2 (of_int (w2 - w1) / (1024 * 1024)))] \<and>
            read_speed_var (gui s2) = Some (py_round2 (of_int (r2 - r1) / (1024 * 1024))) \<and>
            write_speed_var (gui s2) = Some (py_round2 (of_int (w2 - w1) / (1024 * 1024))) \<and>
            db s2 = \<lparr>committed = table, pending = None\<rparr>"
    unfolding q by (intro exI[of _ s2] exI[of _ c] exI[of _ g] exI[of _ m]) (simp add: update_gui_def)
qed

theorem baseline_tick_then_delta_witness:
  "\<exists>s2 c g m. run_metrics Plain [] [example_probes,
       example_probes\<lparr>disk_probe := Some (157286400, 335544320)\<rparr>] = (None, s2) \<and>
     data_buffer s2 = [(''2023-09-01 12:00:00'', c, g, m, 50, 60)] \<and>
     read_speed_var (gui s2) = Some 50 \<and> write_speed_var (gui s2) = Some 60"
proof -
  have h: "probes_answer example_probes"
    "disk_probe example_probes = Some (104857600, 272629760)"
    "probes_answer (example_probes\<lparr>disk_probe := Some (157286400, 335544320)\<rparr>)"
    "disk_probe (example_probes\<lparr>disk_probe := Some (157286400, 335544320)\<rparr>) =
       Some (157286400, 335544320)"
    "initial_cycle (initial_state [])"
    by (simp_all add: probes_answer_def example_probes_def initial_state_def)
  have v: "py_round2 (of_int (157286400 - 104857600) / (1024 * 1024)) = 50"
    "py_round2 (of_int (335544320 - 272629760) / (1024 * 1024)) = 60"
    by (simp_all add: py_round2_def round_half_even_def Let_def)
  have t: "timestamp (example_probes\<lparr>disk_probe := Some (157286400, 335544320)\<rparr>) =
      ''2023-09-01 12:00:00''" by (simp add: example_probes_def)
  from baseline_tick_then_delta[OF h, where table = "[]" and sm = Plain] show ?thesis
    unfolding v t by blast
qed

text \<open>
  C4. From an empty buffer, \<open>BUFFER_SIZE\<close> iterations whose probes answer and whose
  storage accepts every statement end with one more transaction in the table and with an
  empty buffer. The transaction holds the \<open>BUFFER_SIZE\<close> rows that the collectors
  yield for these iterations, every field of every row, in the order of the iterations.
  Before the last of them the table has not changed, and the buffer after \<open>k\<close>
  iterations is the first \<open>k\<close> of these rows.
\<close>

theorem full_buffer_single_flush:
  assumes len: "length ps = BUFFER_SIZE" and h: "\<forall>p\<in>set ps. healthy p"
    and ni: "\<not> initial_cycle s" and empty: "data_buffer s = []"
    and np: "pending (db s) = None"
  shows "\<exists>s' batch. run_ticks sm ps s = (None, s') \<and>
           batch = samples_of sm ps (cpu_percentages s) (old_read s) (old_write s) \<and>
           db s' = (db s)\<lparr>committed := committed (db s) @ [batch]\<rparr> \<and>
           length batch = BUFFER_SIZE \<and> map fst batch = map timestamp ps \<and>
           data_buffer s' = [] \<and>
           (\<forall>k<BUFFER_SIZE. \<exists>sk. run_ticks sm (take k ps) s = (None, sk) \<and> db sk = db s \<and>
                data_buffer sk = take k batch)"
proof -
  from len have ne: "ps \<noteq> []" by (auto simp: BUFFER_SIZE_def)
  from h have pa: "\<forall>p\<in>set ps. probes_answer p" by (simp add: healthy_def)
  from h ne have nf: "storage (last ps) = NoFault" by (simp add: healthy_def)
  from run_full_batch[OF len pa ni empty, where sm = sm] obtain s' e batch where
    f: "run_ticks sm ps s = (e, s')" "length batch = BUFFER_SIZE"
       "batch = samples_of sm ps (cpu_percentages s) (old_read s) (old_write s)"
       "map fst batch = map timestamp ps"
       "write_to_database (storage (last ps)) batch (db s) = (e, db s')"
       "data_buffer s' = (if e = None then [] else batch)"
       "\<forall>k<BUFFER_SIZE. \<exists>sk. run_ticks sm (take k ps) s = (None, sk) \<and> db sk = db s \<and>
                data_buffer sk = take k batch"
    by blast
  from f(5) nf write_succeeds[OF np, where batch = batch]
  have e: "e = None" and d: "db s' = (db s)\<lparr>committed := committed (db s) @ [batch]\<rparr>"
    by simp_all
  from f(1) e have r: "run_ticks sm ps s = (None, s')" by simp
  from f(6) e have b: "data_buffer s' = []" by simp
  from r f(3) d f(2) f(4) b f(7) show ?thesis by blast
qed

text \<open>
  Sixty iterations that differ in every field: the table gains one transaction of 60
  rows, whose timestamps run from second 00 to second 59 and whose first rows carry the
  values collected by the first iterations.
\<close>

theorem full_buffer_single_flush_witness:
  "\<exists>s' batch. run_ticks Plain (map example_tick [0..<60])
       ((initial_state [])\<lparr>initial_cycle := False\<rparr>) = (None, s') \<and>
     committed (db s') = [batch] \<and> length batch = 60 \<and> data_buffer s' = [] \<and>
     map fst batch = map (\<lambda>i. timestamp (example_tick i)) [0..<60] \<and>
     take 3 batch =
       [(''2023-09-01 12:00:00'', 0, 0, 40, 0, 0),
        (''2023-09-01 12:00:01'', 1 / 2, 1, 161 / 4, 1, 1),
        (''2023-09-01 12:00:02'', 1, 2, 81 / 2, 1, 3)]"
proof -
  let ?ps = "map example_tick [0..<60]"
  let ?s = "(initial_state [])\<lparr>initial_cycle := False\<rparr>"
  have "length ?ps = BUFFER_SIZE" by (simp add: BUFFER_SIZE_def)
  moreover have "\<forall>p\<in>set ?ps. healthy p"
    by (simp add: healthy_def probes_answer_def example_tick_def)
  moreover have "\<not> initial_cycle ?s" "data_buffer ?s = []" "pending (db ?s) = None"
    by (simp_all add: initial_state_def)
  ultimately obtain s' batch where
    r: "run_ticks Plain ?ps ?s = (None, s')"
       "db s' = (db ?s)\<lparr>committed := committed (db ?s) @ [batch]\<rparr>"
       "length batch = BUFFER_SIZE" "map fst batch = map timestamp ?ps"
       "data_buffer s' = []"
       "\<forall>k<BUFFER_SIZE. \<exists>sk. run_ticks Plain (take k ?ps) ?s = (None, sk) \<and> db sk = db ?s \<and>
                data_buffer sk = take k batch"
    using full_buffer_single_flush[where ps = ?ps and s = ?s and sm = Plain] by blast
  have three: "take 3 ?ps = [example_tick 0, example_tick 1, example_tick 2]"
    by code_simp
  have run3: "data_buffer (snd (run_ticks Plain [example_tick 0, example_tick 1, example_tick 2] ?s)) =
       [(''2023-09-01 12:00:00'', 0, 0, 40, 0, 0),
        (''2023-09-01 12:00:01'', 1 / 2, 1, 161 / 4, 1, 1),
        (''2023-09-01 12:00:02'', 1, 2, 81 / 2, 1, 3)]"
    by code_simp
  have "(3::nat) < BUFFER_SIZE" by (simp add: BUFFER_SIZE_def)
  with r(6) obtain sk where "run_ticks Plain (take 3 ?ps) ?s = (None, sk)"
    "data_buffer sk = take 3 batch" by blast
  with three run3 have t3: "take 3 batch =
       [(''2023-09-01 12:00:00'', 0, 0, 40, 0, 0),
        (''2023-09-01 12:00:01'', 1 / 2, 1, 161 / 4, 1, 1),
        (''2023-09-01 12:00:02'', 1, 2, 81 / 2, 1, 3)]"
    by simp
  have c: "committed (db s') = [batch]" using r(2) by (simp add: initial_state_def)
  have l: "length batch = 60" using r(3) by (simp add: BUFFER_SIZE_def)
  have m: "map fst batch = map (\<lambda>i. timestamp (example_tick i)) [0..<60]"
    using r(4) by (simp add: comp_def)
  from r(1) c l r(5) m t3 show ?thesis by blast
qed

text \<open>
  C5. In every state that the loop reaches, also the one in which an exception leaves
  it, the buffer holds at most \<open>BUFFER_SIZE\<close> rows. An iteration from a state at the
  head of the loop either leaves the connection alone, raises no storage error, and
  leaves the buffer as it was or one row longer and below \<open>BUFFER_SIZE\<close>; or its row
  brings the buffer to \<open>BUFFER_SIZE\<close>, the whole buffer goes to
  \<^verbatim>\<open>write_to_database\<close>, and the buffer is empty if the write returned, untouched if
  it raised.
\<close>

theorem buffer_bounded_flush_on_full:
  "length (data_buffer (snd (run_metrics sm table ps))) \<le> BUFFER_SIZE \<and>
   (run_metrics sm table ps = (None, s) \<and> tick sm p s = (r, s') \<longrightarrow>
      (db s' = db s \<and> r \<noteq> Some StorageError \<and>
         (data_buffer s' = data_buffer s \<or>
          (\<exists>row. data_buffer s' = data_buffer s @ [row] \<and>
                 length (data_buffer s') < BUFFER_SIZE))) \<or>
      (\<exists>row. length (data_buffer s @ [row]) = BUFFER_SIZE \<and>
             write_to_database (storage p) (data_buffer s @ [row]) (db s) = (r, db s') \<and>
             data_buffer s' = (if r = None then [] else data_buffer s @ [row])))"
proof (intro conjI impI)
  obtain e s0 where run: "run_metrics sm table ps = (e, s0)" by (cases "run_metrics sm table ps")
  then have "run_ticks sm ps (initial_state table) = (e, s0)" by (simp add: run_metrics_def)
  from run_ticks_buffer_bound[OF initial_state_buffer this] run
  show "length (data_buffer (snd (run_metrics sm table ps))) \<le> BUFFER_SIZE" by simp
next
  assume a: "run_metrics sm table ps = (None, s) \<and> tick sm p s = (r, s')"
  then have "run_ticks sm ps (initial_state table) = (None, s)" by (simp add: run_metrics_def)
  from run_ticks_buffer_bound[OF initial_state_buffer this]
  have "length (data_buffer s) < BUFFER_SIZE" by simp
  with a show "(db s' = db s \<and> r \<noteq> Some StorageError \<and>
         (data_buffer s' = data_buffer s \<or>
          (\<exists>row. data_buffer s' = data_buffer s @ [row] \<and>
                 length (data_buffer s') < BUFFER_SIZE))) \<or>
      (\<exists>row. length (data_buffer s @ [row]) = BUFFER_SIZE \<and>
             write_to_database (storage p) (data_buffer s @ [row]) (db s) = (r, db s') \<and>
             data_buffer s' = (if r = None then [] else data_buffer s @ [row]))"
    using tick_buffer_step by blast
qed

theorem buffer_bounded_flush_on_full_witness:
  "\<exists>s s'. run_metrics Plain [] (replicate 60 example_probes) = (None, s) \<and>
     tick Plain (example_probes\<lparr>storage := FailCommit\<rparr>) s = (Some StorageError, s') \<and>
     length (data_buffer s') = BUFFER_SIZE \<and>
     (\<exists>row. write_to_database FailCommit (data_buffer s @ [row]) (db s) =
        (Some StorageError, db s') \<and> data_buffer s' = data_buffer s @ [row])"
proof -
  from example_flush_fails[where sm = Plain] obtain s s' where
    h: "run_metrics Plain [] (replicate 60 example_probes) = (None, s)"
       "tick Plain (example_probes\<lparr>storage := FailCommit\<rparr>) s = (Some StorageError, s')"
       "length (data_buffer s') = 60"
    by blast
  from buffer_bounded_flush_on_full[where sm = Plain and table = "[]"
      and ps = "replicate 60 example_probes" and s = s
      and p = "example_probes\<lparr>storage := FailCommit\<rparr>" and r = "Some StorageError"
      and s' = s'] h
  show ?thesis by (auto simp: BUFFER_SIZE_def)
qed

text \<open>
  C6, as the code has it. The buffer never holds more than \<open>BUFFER_SIZE\<close> rows. When
  the write of a full buffer raises a storage error, the error leaves \<^verbatim>\<open>run_metrics\<close>:
  whatever iterations would follow, the loop has stopped in the state of the failure,
  with the \<open>BUFFER_SIZE\<close> rows still in the buffer (the write is not tried again, the
  batch is not dropped) and nothing of them in the table.
\<close>

theorem flush_failure_stops_loop:
  "length (data_buffer (snd (run_metrics sm table ps))) \<le> BUFFER_SIZE \<and>
   (run_metrics sm table ps = (None, s) \<and> tick sm p s = (Some StorageError, s') \<longrightarrow>
      run_metrics sm table (ps @ p # qs) = (Some StorageError, s') \<and>
      length (data_buffer s') = BUFFER_SIZE \<and>
      butlast (data_buffer s') = data_buffer s \<and>
      committed (db s') = committed (db s))"
proof (intro conjI impI)
  obtain e s0 where run: "run_metrics sm table ps = (e, s0)" by (cases "run_metrics sm table ps")
  then have "run_ticks sm ps (initial_state table) = (e, s0)" by (simp add: run_metrics_def)
  from run_ticks_buffer_bound[OF initial_state_buffer this] run
  show "length (data_buffer (snd (run_metrics sm table ps))) \<le> BUFFER_SIZE" by simp
next
  assume a: "run_metrics sm table ps = (None, s) \<and> tick sm p s = (Some StorageError, s')"
  then have r: "run_ticks sm ps (initial_state table) = (None, s)"
    and t: "tick sm p s = (Some StorageError, s')" by (simp_all add: run_metrics_def)
  from run_ticks_halts[OF r t]
  show "run_metrics sm table (ps @ p # qs) = (Some StorageError, s')" by (simp add: run_metrics_def)
  from run_ticks_buffer_bound[OF initial_state_buffer r]
  have "length (data_buffer s) < BUFFER_SIZE" by simp
  from tick_buffer_step[OF t this] obtain row where
    f: "length (data_buffer s @ [row]) = BUFFER_SIZE"
       "write_to_database (storage p) (data_buffer s @ [row]) (db s) = (Some StorageError, db s')"
       "data_buffer s' = data_buffer s @ [row]"
    by auto
  from f(1,3) show "length (data_buffer s') = BUFFER_SIZE" by simp
  from f(3) show "butlast (data_buffer s') = data_buffer s" by simp
  from write_outcome[OF f(2)] show "committed (db s') = committed (db s)" by simp
qed

theorem flush_failure_stops_loop_witness:
  "fst (run_metrics Plain [] (replicate 60 example_probes @
          [example_probes\<lparr>storage := FailCommit\<rparr>, example_probes])) = Some StorageError \<and>
   length (data_buffer (snd (run_metrics Plain [] (replicate 60 example_probes @
          [example_probes\<lparr>storage := FailCommit\<rparr>, example_probes])))) = BUFFER_SIZE \<and>
   committed (db (snd (run_metrics Plain [] (replicate 60 example_probes @
          [example_probes\<lparr>storage := FailCommit\<rparr>, example_probes])))) = []"
proof -
  from example_flush_fails[where sm = Plain] obtain s s' where
    h: "run_metrics Plain [] (replicate 60 example_probes) = (None, s)"
       "tick Plain (example_probes\<lparr>storage := FailCommit\<rparr>) s = (Some StorageError, s')"
       "committed (db s') = []"
    by blast
  from flush_failure_stops_loop[where sm = Plain and table = "[]"
      and ps = "replicate 60 example_probes" and s = s
      and p = "example_probes\<lparr>storage := FailCommit\<rparr>" and s' = s'
      and qs = "[example_probes]"] h
  show ?thesis by simp
qed

text \<open>
  C6 as stated fails: the commit of the first full buffer is refused, and the iteration
  fed after it changes nothing, the loop having stopped with the storage error and the
  60 rows in the buffer.
\<close>

theorem flush_failure_counterexample:
  "run_metrics Plain [] (replicate 60 example_probes @
       [example_probes\<lparr>storage := FailCommit\<rparr>, example_probes]) =
     run_metrics Plain [] (replicate 60 example_probes @ [example_probes\<lparr>storage := FailCommit\<rparr>]) \<and>
   fst (run_metrics Plain [] (replicate 60 example_probes @
       [example_probes\<lparr>storage := FailCommit\<rparr>, example_probes])) = Some StorageError \<and>
   length (data_buffer (snd (run_metrics Plain [] (replicate 60 example_probes @
       [example_probes\<lparr>storage := FailCommit\<rparr>, example_probes])))) = 60"
proof -
  from example_flush_fails[where sm = Plain] obtain s s' where
    h: "run_ticks Plain (replicate 60 example_probes) (initial_state []) = (None, s)"
       "tick Plain (example_probes\<lparr>storage := FailCommit\<rparr>) s = (Some StorageError, s')"
       "length (data_buffer s') = 60"
    by (auto simp: run_metrics_def)
  from run_ticks_halts[OF h(1,2), where qs = "[example_probes]"] run_ticks_halts[OF h(1,2), where qs = "[]"] h(3)
  show ?thesis by (simp add: run_metrics_def)
qed

text \<open>
  C7, as the code has it. When a probe raises in an iteration, the error leaves
  \<^verbatim>\<open>run_metrics\<close>: whatever iterations would follow, the loop has stopped, in the state
  it had before that iteration but for the window of the smoother, so nothing is
  appended, shown or written for that iteration. The error ends the sampling thread and
  not the process: the thread is a daemon, and the process exits when the window is
  closed and not before.
\<close>

theorem probe_failure_stops_loop:
  assumes "run_metrics sm table ps = (None, s)" and "\<not> probes_answer p"
  shows "(\<exists>w. run_metrics sm table (ps @ p # qs) =
            (Some ProbeError, s\<lparr>cpu_percentages := w\<rparr>)) \<and>
         ended (sampler (main_program sm table (ps @ p # qs) window_closed)) =
           Some (Raised ProbeError) \<and>
         exited (main_program sm table (ps @ p # qs) window_closed) = window_closed"
proof -
  from tick_probe_fails[OF assms(2), where s = s and sm = sm] obtain w where
    t: "tick sm p s = (Some ProbeError, s\<lparr>cpu_percentages := w\<rparr>)" by blast
  from assms(1) have "run_ticks sm ps (initial_state table) = (None, s)"
    by (simp add: run_metrics_def)
  from run_ticks_halts[OF this t, where qs = qs]
  have r: "run_metrics sm table (ps @ p # qs) = (Some ProbeError, s\<lparr>cpu_percentages := w\<rparr>)"
    by (simp add: run_metrics_def)
  then have "ended (sampler (main_program sm table (ps @ p # qs) window_closed)) =
      Some (Raised ProbeError)"
    and "exited (main_program sm table (ps @ p # qs) window_closed) = window_closed"
    by (simp_all add: main_program_def process_exits_def)
  with r show ?thesis by blast
qed

theorem probe_failure_stops_loop_witness:
  "fst (run_metrics Plain [] ([example_probes] @
      example_probes\<lparr>gpu_probe := None\<rparr> # [example_probes])) = Some ProbeError \<and>
   data_buffer (snd (run_metrics Plain [] ([example_probes] @
      example_probes\<lparr>gpu_probe := None\<rparr> # [example_probes]))) = [] \<and>
   ended (sampler (main_program Plain [] ([example_probes] @
      example_probes\<lparr>gpu_probe := None\<rparr> # [example_probes]) False)) =
     Some (Raised ProbeError) \<and>
   exited (main_program Plain [] ([example_probes] @
      example_probes\<lparr>gpu_probe := None\<rparr> # [example_probes]) False) = False"
proof -
  obtain s where s: "run_metrics Plain [] [example_probes] = (None, s)" "data_buffer s = []"
    using tick_baseline[OF example_probes_answer(1) initial_state_fields(1)[of "[]"],
        where sm = Plain]
    by (auto simp: run_metrics_def initial_state_fields)
  have "\<not> probes_answer (example_probes\<lparr>gpu_probe := None\<rparr>)"
    by (simp add: probes_answer_def)
  from probe_failure_stops_loop[OF s(1) this, where qs = "[example_probes]"
      and window_closed = False] s(2)
  show ?thesis by auto
qed

text \<open>
  C7 as stated fails: the CPU probe raises in the first iteration, and the second
  iteration, whose probes all answer, is never run: the state is the initial one.
\<close>

theorem probe_failure_counterexample:
  "run_metrics Plain [] [example_probes\<lparr>cpu_probe := None\<rparr>, example_probes] =
     (Some ProbeError, initial_state [])"
  by (simp add: run_metrics_def tick_def collect_cpu_metrics_def initial_state_def)

text \<open>
  C8. A call of \<^verbatim>\<open>write_to_database\<close> either commits and the table gains the whole
  batch, in the order of the buffer, as one transaction, or raises and the durable rows
  are those from before the call: no part of a batch is ever durable.
\<close>

theorem write_all_or_nothing:
  "write_to_database fault batch d = (r, d') \<Longrightarrow>
     (r = None \<and> committed d' = committed d @ [batch] \<and> metrics_rows d' = metrics_rows d @ batch) \<or>
     (r = Some StorageError \<and> committed d' = committed d \<and> metrics_rows d' = metrics_rows d)"
  by (cases fault; cases "pending d")
     (auto simp: write_to_database_def sql_begin_def sql_executemany_def sql_commit_def
        metrics_rows_def Let_def split: if_splits)

theorem write_all_or_nothing_witness:
  "write_to_database (FailInsert 1) [(''t1'', 1, 2, 3, 4, 5), (''t2'', 1, 2, 3, 4, 5)]
     \<lparr>committed = [[(''t0'', 0, 0, 0, 0, 0)]], pending = None\<rparr> =
     (Some StorageError,
      \<lparr>committed = [[(''t0'', 0, 0, 0, 0, 0)]], pending = Some [(''t1'', 1, 2, 3, 4, 5)]\<rparr>) \<and>
   metrics_rows \<lparr>committed = [[(''t0'', 0, 0, 0, 0, 0)]],
                 pending = Some [(''t1'', 1, 2, 3, 4, 5)]\<rparr> = [(''t0'', 0, 0, 0, 0, 0)]"
proof -
  have h: "write_to_database (FailInsert 1) [(''t1'', 1, 2, 3, 4, 5), (''t2'', 1, 2, 3, 4, 5)]
     \<lparr>committed = [[(''t0'', 0, 0, 0, 0, 0)]], pending = None\<rparr> =
     (Some StorageError,
      \<lparr>committed = [[(''t0'', 0, 0, 0, 0, 0)]], pending = Some [(''t1'', 1, 2, 3, 4, 5)]\<rparr>)"
    by (simp add: write_to_database_def sql_begin_def sql_executemany_def Let_def)
  from write_all_or_nothing [OF h] h show ?thesis
    by (simp add: metrics_rows_def)
qed

text \<open>
  C9, as the code has it. From the initial state, 61 iterations whose probes answer and
  whose storage accepts every statement end with exactly one transaction of 60 rows
  added to the table, committed by the 61st iteration and not before, and with an empty
  buffer. The labels are set before the write, so the remaining count shown by the 61st
  iteration is that of the full batch, \<open>BUFFER_SIZE\<close> minus 60, which is 0.
\<close>

theorem sixty_one_ticks_one_flush:
  assumes len: "length ps = Suc BUFFER_SIZE" and h: "\<forall>p\<in>set ps. healthy p"
  shows "\<exists>s' batch. run_metrics sm table ps = (None, s') \<and>
           db s' = \<lparr>committed = table @ [batch], pending = None\<rparr> \<and>
           length batch = BUFFER_SIZE \<and> map fst batch = map timestamp (tl ps) \<and>
           data_buffer s' = [] \<and>
           remaining_time (gui s') = UntilNextSave (int BUFFER_SIZE - int (length batch)) \<and>
           (\<forall>k\<le>BUFFER_SIZE. \<exists>sk. run_metrics sm table (take k ps) = (None, sk) \<and>
                db sk = \<lparr>committed = table, pending = None\<rparr> \<and>
                data_buffer sk = take (k - 1) batch)"
proof -
  from len have ne: "ps \<noteq> []" by auto
  from h have pa: "\<forall>p\<in>set ps. probes_answer p" by (simp add: healthy_def)
  from h ne have nf: "storage (last ps) = NoFault" by (simp add: healthy_def)
  from run_baseline_full_batch[OF len pa, where table = table and sm = sm] obtain s' e batch where
    f: "run_metrics sm table ps = (e, s')" "length batch = BUFFER_SIZE"
       "map fst batch = map timestamp (tl ps)"
       "write_to_database (storage (last ps)) batch \<lparr>committed = table, pending = None\<rparr> =
             (e, db s')"
       "data_buffer s' = (if e = None then [] else batch)"
       "remaining_time (gui s') = UntilNextSave 0"
       "\<forall>k\<le>BUFFER_SIZE. \<exists>sk. run_metrics sm table (take k ps) = (None, sk) \<and>
                db sk = \<lparr>committed = table, pending = None\<rparr> \<and>
                data_buffer sk = take (k - 1) batch"
    by blast
  from f(4) nf write_succeeds[where d = "\<lparr>committed = table, pending = None\<rparr>" and batch = batch]
  have e: "e = None" and d: "db s' = \<lparr>committed = table @ [batch], pending = None\<rparr>"
    by simp_all
  from f(1,2,3,5,6,7) e d show ?thesis by auto
qed

theorem sixty_one_ticks_one_flush_witness:
  "\<exists>s' batch. run_metrics Plain [] (replicate 61 example_probes) = (None, s') \<and>
     db s' = \<lparr>committed = [batch], pending = None\<rparr> \<and> length batch = 60 \<and>
     data_buffer s' = [] \<and> remaining_time (gui s') = UntilNextSave 0"
proof -
  have "length (replicate 61 example_probes) = Suc BUFFER_SIZE" by (simp add: BUFFER_SIZE_def)
  moreover have "\<forall>p\<in>set (replicate 61 example_probes). healthy p"
    by (simp add: healthy_def example_probes_answer)
  ultimately obtain s' batch where
    "run_metrics Plain [] (replicate 61 example_probes) = (None, s')"
    "db s' = \<lparr>committed = [] @ [batch], pending = None\<rparr>" "length batch = BUFFER_SIZE"
    "data_buffer s' = []"
    "remaining_time (gui s') = UntilNextSave (int BUFFER_SIZE - int (length batch))"
    using sixty_one_ticks_one_flush[where ps = "replicate 61 example_probes" and table = "[]" and sm = Plain] by blast
  then show ?thesis
    by (intro exI[of _ s'] exI[of _ batch]) (simp add: BUFFER_SIZE_def)
qed

text \<open>
  C9 as stated fails: the count that the 61st iteration shows is the one of 60 rows out
  of 60, not the one of 1 row out of 60.
\<close>

theorem fill_level_at_flush_counterexample:
  "remaining_time (gui (snd (run_metrics Plain [] (replicate 61 example_probes)))) =
     UntilNextSave (int BUFFER_SIZE - 60) \<and>
   remaining_time (gui (snd (run_metrics Plain [] (replicate 61 example_probes)))) \<noteq>
     UntilNextSave (int BUFFER_SIZE - 1)"
  using example_run_61[where sm = Plain] by (auto simp: BUFFER_SIZE_def)

text \<open>
  C10. \<^verbatim>\<open>filter_time\<close> returns a frame for the four periods of the menu: the rows at
  or after one hour, one day or one week before now, or the frame itself for
  \<^verbatim>\<open>All\<close>. For every other period it raises: \<^verbatim>\<open>past_time\<close> is read before any
  branch has assigned it.
\<close>

theorem filter_time_periods:
  "filter_time now df ''Last Hour'' = Inr (filter (\<lambda>row. now - 3600000000 \<le> fst row) df) \<and>
   filter_time now df ''Last Day'' = Inr (filter (\<lambda>row. now - 86400000000 \<le> fst row) df) \<and>
   filter_time now df ''Last Week'' = Inr (filter (\<lambda>row. now - 604800000000 \<le> fst row) df) \<and>
   filter_time now df ''All'' = Inr df \<and>
   (time_period \<notin> {''Last Hour'', ''Last Day'', ''Last Week'', ''All''} \<longrightarrow>
      filter_time now df time_period = Inl UnboundLocalError)"
  by (simp add: filter_time_def select_since_def timedelta_hours_def timedelta_days_def
      timedelta_weeks_def)

theorem filter_time_periods_witness:
  "''Last Month'' \<notin> {''Last Hour'', ''Last Day'', ''Last Week'', ''All''} \<and>
   filter_time 4000000000 [(100, ''a''), (500000000, ''b'')] ''Last Month'' = Inl UnboundLocalError \<and>
   filter_time 4000000000 [(100, ''a''), (500000000, ''b'')] ''Last Hour'' = Inr [(500000000, ''b'')] \<and>
   filter_time 4000000000 [(100, ''a''), (500000000, ''b'')] ''All'' = Inr [(100, ''a''), (500000000, ''b'')]"
  using filter_time_periods[of 4000000000 "[(100, ''a''), (500000000, ''b'')]" "''Last Month''"]
  by simp

end
